theory Spec2Isabelle
  imports Main "HOL-Library.Word"
begin

unbundle bit_operations_syntax

section \<open>Python string and integer primitives used by SMA.py and SMD.py\<close>

text \<open>
  A Python \<open>str\<close> is modelled as a \<open>string\<close> whose characters are the code points
  below 256 (Latin-1); \<open>length\<close> counts code points, as \<open>len\<close> does.  Python integers
  are unbounded and are modelled by \<open>int\<close> (by \<open>nat\<close> where the source only ever
  produces a count).  The conversion \<open>int(s)\<close> in base 10 raises ValueError for a literal
  of more than 4300 digits (the interpreter's default \<open>sys.get_int_max_str_digits()\<close>);
  this is part of \<open>py_int\<close>.  The same limit of \<open>str(n)\<close> is never reached in SMA.py
  and SMD.py: every integer that is rendered is a result of \<open>int\<close> in base 10, the value
  of at most 32 binary digits, a line index or a length.
\<close>

definition py_isspace :: "char \<Rightarrow> bool" where
  \<comment> \<open>\<open>str.isspace\<close> on one character; the set used by \<open>strip()\<close> and \<open>split()\<close>\<close>
  "py_isspace c \<longleftrightarrow> c \<in> set [CHR 0x09, CHR 0x0A, CHR 0x0B, CHR 0x0C, CHR 0x0D,
       CHR 0x1C, CHR 0x1D, CHR 0x1E, CHR 0x1F, CHR 0x20, CHR 0x85, CHR 0xA0]"

definition int_isspace :: "char \<Rightarrow> bool" where
  \<comment> \<open>the blanks that \<open>int(s)\<close> skips around the literal\<close>
  "int_isspace c \<longleftrightarrow> c \<in> set [CHR 0x09, CHR 0x0A, CHR 0x0B, CHR 0x0C, CHR 0x0D,
       CHR 0x20, CHR 0x85, CHR 0xA0]"

definition py_strip :: "string \<Rightarrow> string" where
  \<comment> \<open>\<open>s.strip()\<close>\<close>
  "py_strip s = rev (dropWhile py_isspace (rev (dropWhile py_isspace s)))"

definition py_split_max1 :: "string \<Rightarrow> string list" where
  \<comment> \<open>\<open>s.split(maxsplit=1)\<close>: the first blank-separated word, then the remainder with
      its leading blanks removed (its trailing blanks kept) when it is not empty\<close>
  "py_split_max1 s =
     (let s1 = dropWhile py_isspace s in
      if s1 = [] then []
      else let w = takeWhile (\<lambda>c. \<not> py_isspace c) s1;
               r = dropWhile py_isspace (dropWhile (\<lambda>c. \<not> py_isspace c) s1)
           in if r = [] then [w] else [w, r])"

fun py_split_on :: "char \<Rightarrow> string \<Rightarrow> string list" where
  \<comment> \<open>\<open>s.split(sep)\<close> for a one-character separator; \<open>''''.split(sep) = ['''']\<close>\<close>
  "py_split_on sep [] = [[]]"
| "py_split_on sep (c # cs) =
     (if c = sep then [] # py_split_on sep cs
      else (case py_split_on sep cs of
              [] \<Rightarrow> [[c]]
            | h # t \<Rightarrow> (c # h) # t))"

definition remove_commas :: "string \<Rightarrow> string" where
  \<comment> \<open>\<open>s.replace(',', '')\<close>\<close>
  "remove_commas s = filter (\<lambda>c. c \<noteq> CHR '','') s"

definition py_lower_char :: "char \<Rightarrow> char" where
  \<comment> \<open>\<open>str.lower\<close> on one Latin-1 character: A-Z and the accented capitals\<close>
  "py_lower_char c =
     (let n = (of_char c :: nat) in
      if (0x41 \<le> n \<and> n \<le> 0x5A) \<or> (0xC0 \<le> n \<and> n \<le> 0xDE \<and> n \<noteq> 0xD7)
      then char_of (n + 0x20) else c)"

definition py_lower :: "string \<Rightarrow> string" where
  "py_lower s = map py_lower_char s"

definition is_digit :: "char \<Rightarrow> bool" where
  \<comment> \<open>the regular expression class \<open>\d\<close>, and the digits of a decimal literal\<close>
  "is_digit c \<longleftrightarrow> (0x30 \<le> (of_char c :: nat) \<and> (of_char c :: nat) \<le> 0x39)"

definition digit_value :: "char \<Rightarrow> nat" where
  \<comment> \<open>value of a character as a digit; 37 stands for "not a digit" in bases 2 and 10\<close>
  "digit_value c = (if is_digit c then of_char c - 0x30 else 37)"

fun py_digits :: "nat \<Rightarrow> bool \<Rightarrow> nat \<Rightarrow> string \<Rightarrow> (nat \<times> string) option" where
  \<comment> \<open>scan the digits of a literal in the given base; single underscores may separate
      digits; the flag says that the previous character was an underscore; the result is
      the value read and the text left\<close>
  "py_digits base prev_us acc [] = (if prev_us then None else Some (acc, []))"
| "py_digits base prev_us acc (c # cs) =
     (if c = CHR ''_'' then (if prev_us then None else py_digits base True acc cs)
      else if digit_value c < base then py_digits base False (acc * base + digit_value c) cs
      else if prev_us then None else Some (acc, c # cs))"

definition split_sign :: "string \<Rightarrow> bool \<times> string" where
  \<comment> \<open>an optional sign in front of a literal: whether it is negative, and the rest\<close>
  "split_sign s =
     (case s of
        c # cs \<Rightarrow> if c = CHR ''+'' then (False, cs)
                  else if c = CHR ''-'' then (True, cs)
                  else (False, s)
      | [] \<Rightarrow> (False, s))"

definition skip_base_prefix :: "nat \<Rightarrow> string \<Rightarrow> string" where
  \<comment> \<open>base 2 allows the prefix \<open>0b\<close> or \<open>0B\<close>, and one underscore after it\<close>
  "skip_base_prefix base s =
     (case s of
        c # d # cs \<Rightarrow>
          if base = 2 \<and> c = CHR ''0'' \<and> (d = CHR ''b'' \<or> d = CHR ''B'')
          then (case cs of e # es \<Rightarrow> if e = CHR ''_'' then es else cs | [] \<Rightarrow> cs)
          else s
      | _ \<Rightarrow> s)"

definition max_str_digits :: nat where
  \<comment> \<open>the default of \<open>sys.get_int_max_str_digits()\<close>\<close>
  "max_str_digits = 4300"

definition over_limit :: "nat \<Rightarrow> bool" where
  \<comment> \<open>a number of digits that \<open>int\<close> refuses in base 10\<close>
  "over_limit n \<longleftrightarrow> max_str_digits < n"

definition count_digits :: "string \<Rightarrow> nat" where
  \<comment> \<open>the digits of a scanned literal: its characters other than underscores\<close>
  "count_digits s = length (filter (\<lambda>c. c \<noteq> CHR ''_'') s)"

definition py_int :: "nat \<Rightarrow> string \<Rightarrow> int option" where
  \<comment> \<open>\<open>int(s, base)\<close> for base 2 or 10; \<open>None\<close> is the ValueError.  Blanks around the
      literal are skipped, a sign is optional, then the base prefix; the digits may not
      start with an underscore and at least one digit is needed; in base 10 a literal of
      more than \<open>max_str_digits\<close> digits (leading zeros counted) is refused\<close>
  "py_int base s =
     (let (neg, s2) = split_sign (dropWhile int_isspace s);
          s3 = skip_base_prefix base s2
      in case s3 of
           [] \<Rightarrow> None
         | c # cs \<Rightarrow>
             if \<not> digit_value c < base then None
             else (case py_digits base False 0 s3 of
                     None \<Rightarrow> None
                   | Some (v, rest) \<Rightarrow>
                       if base \<noteq> 2
                          \<and> over_limit (count_digits (take (length s3 - length rest) s3))
                       then None
                       else if dropWhile int_isspace rest = []
                       then Some (if neg then - int v else int v)
                       else None))"

definition digit_char :: "nat \<Rightarrow> char" where
  "digit_char d = char_of (0x30 + d)"

fun str_nat :: "nat \<Rightarrow> string" where
  \<comment> \<open>decimal digits of a natural number, most significant first\<close>
  "str_nat n = (if n < 10 then [digit_char n] else str_nat (n div 10) @ [digit_char (n mod 10)])"

declare str_nat.simps [simp del]

definition py_str :: "int \<Rightarrow> string" where
  \<comment> \<open>\<open>str(n)\<close>, also the rendering of an integer inside an f-string\<close>
  "py_str n = (if n < 0 then CHR ''-'' # str_nat (nat (- n)) else str_nat (nat n))"

fun bin_nat :: "nat \<Rightarrow> string" where
  \<comment> \<open>binary digits of a natural number, most significant first\<close>
  "bin_nat n = (if n < 2 then [digit_char n] else bin_nat (n div 2) @ [digit_char (n mod 2)])"

declare bin_nat.simps [simp del]

definition format_bin :: "nat \<Rightarrow> int \<Rightarrow> string" where
  \<comment> \<open>\<open>format(v, '0{w}b')\<close>: zero padding to at least \<open>w\<close> characters, never truncating;
      a negative value keeps its sign in front of the padding\<close>
  "format_bin w v =
     (if v < 0
      then CHR ''-'' # replicate (w - 1 - length (bin_nat (nat (- v)))) CHR ''0'' @ bin_nat (nat (- v))
      else replicate (w - length (bin_nat (nat v))) CHR ''0'' @ bin_nat (nat v))"

definition slice :: "nat \<Rightarrow> nat \<Rightarrow> 'a list \<Rightarrow> 'a list" where
  \<comment> \<open>\<open>s[i:j]\<close> for constant bounds \<open>0 \<le> i \<le> j\<close>; out-of-range bounds are clipped\<close>
  "slice i j s = take (j - i) (drop i s)"

section \<open>SMA.py: the assembler\<close>

subsection \<open>Tables\<close>

definition opcodes :: "(string \<times> string) list" where
  \<comment> \<open>the dictionary \<open>opcodes\<close>, in source order\<close>
  "opcodes =
    [(''clr'', ''000000''), (''cmb'', ''000001''), (''mns'', ''000010''), (''mlt'', ''000011''),
     (''dvd'', ''000100''), (''cmbi'', ''000101''), (''ldwd'', ''000110''), (''srwd'', ''000111''),
     (''jmp'', ''001000''), (''pint'', ''001001''), (''pstr'', ''001010''), (''mnsi'', ''001011''),
     (''mlti'', ''001100''), (''dvdi'', ''001101''), (''for'', ''001110''), (''sqrt'', ''001111''),
     (''mdlo'', ''010000''), (''sqr'', ''010001''), (''ife'', ''010010''), (''ifne'', ''010011''),
     (''ldad'', ''010100''), (''ldim'', ''010101''), (''end'', ''111111'')]"

definition registers :: "(string \<times> string) list" where
  \<comment> \<open>\<open>{f"%r{i}": format(i, '05b') for i in range(32)}\<close>\<close>
  "registers = map (\<lambda>i. (''%r'' @ py_str (int i), format_bin 5 (int i))) [0..<32]"

subsection \<open>Errors\<close>

datatype imm_error =
    NotAnInteger                 \<comment> \<open>\<open>int(imm_str)\<close> raised\<close>
  | TooSmall int nat             \<comment> \<open>"Immediate value v too small for b bits."\<close>
  | TooLarge int nat             \<comment> \<open>"Immediate value v too large for b bits."\<close>

datatype error =
    InvalidRegister string               \<comment> \<open>ValueError "Invalid register name: ..."\<close>
  | InvalidImmediate string imm_error    \<comment> \<open>ValueError "Invalid immediate value: s. e"\<close>
  | InvalidMemoryAddress string          \<comment> \<open>ValueError "Invalid memory address format: ..."\<close>
  | UnknownInstruction string            \<comment> \<open>ValueError "Unknown instruction: ..."\<close>
  | OperandCount string string           \<comment> \<open>ValueError "Instruction 'op' requires ... Got: ..."\<close>
  | UndefinedLabel string                \<comment> \<open>ValueError "Undefined label: ..."\<close>
  | NotImplemented string                \<comment> \<open>NotImplementedError "Assembly rule ... not implemented."\<close>
  | IndexError                           \<comment> \<open>\<open>parts[0]\<close> on an empty list\<close>
  | DuplicateLabel string nat            \<comment> \<open>ValueError "Duplicate label 'l' found at line n"\<close>
  | EncodingWidth string nat             \<comment> \<open>ValueError "Internal Error: ... is not 32 bits long!"\<close>
  | InvalidBinaryLiteral string          \<comment> \<open>ValueError of \<open>int(s, 2)\<close> in the disassembler\<close>
  | InvalidDecimalLiteral string         \<comment> \<open>ValueError of \<open>int(s)\<close> in \<open>parse_memory_address\<close>\<close>

definition bind :: "error + 'a \<Rightarrow> ('a \<Rightarrow> error + 'b) \<Rightarrow> error + 'b" where
  \<comment> \<open>sequencing: an exception raised by the first computation skips the second\<close>
  "bind m f = (case m of Inl e \<Rightarrow> Inl e | Inr x \<Rightarrow> f x)"

subsection \<open>Helper functions\<close>

definition parse_register :: "string \<Rightarrow> error + string" where
  "parse_register reg_str =
     (let reg_str = remove_commas reg_str in
      case map_of registers reg_str of
        Some code \<Rightarrow> Inr code
      | None \<Rightarrow> Inl (InvalidRegister reg_str))"

definition parse_immediate :: "string \<Rightarrow> nat \<Rightarrow> error + string" where
  \<comment> \<open>every ValueError raised inside the \<open>try\<close> is caught and raised again with the
      prefix "Invalid immediate value"\<close>
  "parse_immediate imm_str bits =
     (let imm_str = remove_commas imm_str in
      case py_int 10 imm_str of
        None \<Rightarrow> Inl (InvalidImmediate imm_str NotAnInteger)
      | Some v \<Rightarrow>
          let min_val = (if bits > 0 then - (2 ^ (bits - 1)) else 0 :: int);
              max_val = (if bits > 0 then 2 ^ bits - 1 else 0 :: int)
          in if v < 0
             then (if v < min_val then Inl (InvalidImmediate imm_str (TooSmall v bits))
                   else Inr (format_bin bits (v AND (push_bit bits 1 - 1))))
             else if v > max_val then Inl (InvalidImmediate imm_str (TooLarge v bits))
             else Inr (format_bin bits v))"

definition match_reg_paren :: "string \<Rightarrow> string option" where
  \<comment> \<open>the tail \<open>\((%r\d+)\)\<close> of both patterns, matched at the start of the text; the
      result is the group \<open>%r\d+\<close>; what follows the closing parenthesis is not looked at\<close>
  "match_reg_paren s =
     (case s of
        a # b # c # rest \<Rightarrow>
          if a = CHR ''('' \<and> b = CHR ''%'' \<and> c = CHR ''r'' then
            (let ds = takeWhile is_digit rest; rest' = dropWhile is_digit rest in
             if ds \<noteq> [] \<and> rest' \<noteq> [] \<and> hd rest' = CHR '')'' then Some (''%r'' @ ds) else None)
          else None
      | _ \<Rightarrow> None)"

definition match_offset_reg :: "string \<Rightarrow> (string \<times> string) option" where
  \<comment> \<open>\<open>re.match(r"(-?\d+)\((%r\d+)\)", s)\<close>: the two groups\<close>
  "match_offset_reg s =
     (let (sign, s1) = (case s of c # cs \<Rightarrow> if c = CHR ''-'' then (''-'', cs) else ([], s)
                                 | [] \<Rightarrow> ([], s));
          ds = takeWhile is_digit s1
      in if ds = [] then None
         else (case match_reg_paren (dropWhile is_digit s1) of
                 Some reg \<Rightarrow> Some (sign @ ds, reg)
               | None \<Rightarrow> None))"

definition parse_memory_address :: "string \<Rightarrow> error + (int \<times> string)" where
  "parse_memory_address mem_str =
     (let mem_str = remove_commas mem_str in
      case match_offset_reg mem_str of
        Some (g1, g2) \<Rightarrow>
          (case py_int 10 g1 of
             Some offset \<Rightarrow> Inr (offset, g2)
           | None \<Rightarrow> Inl (InvalidDecimalLiteral g1))
      | None \<Rightarrow>
          (case match_reg_paren mem_str of
             Some reg \<Rightarrow> Inr (0, reg)
           | None \<Rightarrow> Inl (InvalidMemoryAddress mem_str)))"

subsection \<open>Assembler core logic\<close>

type_synonym label_table = "string \<rightharpoonup> nat"

definition lookup_label :: "label_table \<Rightarrow> string \<Rightarrow> error + nat" where
  \<comment> \<open>\<open>if label not in label_table: raise ValueError(...)\<close>, then \<open>label_table[label]\<close>\<close>
  "lookup_label label_table label =
     (case label_table label of
        None \<Rightarrow> Inl (UndefinedLabel label)
      | Some address \<Rightarrow> Inr address)"

text \<open>One definition for each branch of "Instruction Format Handling" in \<open>assemble_line\<close>.\<close>

definition encode_r_type :: "string \<Rightarrow> string \<Rightarrow> string \<Rightarrow> string list \<Rightarrow> error + string option" where
  \<comment> \<open>cmb, mns, mlt, dvd, mdlo\<close>
  "encode_r_type op opcode_bin operands_str operands =
     (if length operands \<noteq> 3 then Inl (OperandCount op operands_str)
      else bind (parse_register (operands ! 0)) (\<lambda>rs.
           bind (parse_register (operands ! 1)) (\<lambda>rt.
           bind (parse_register (operands ! 2)) (\<lambda>rd.
           Inr (Some (opcode_bin @ rs @ rt @ rd @ replicate 11 CHR ''0''))))))"

definition encode_imm_arith :: "string \<Rightarrow> string \<Rightarrow> string \<Rightarrow> string list \<Rightarrow> error + string option" where
  \<comment> \<open>cmbi, mnsi, mlti, dvdi\<close>
  "encode_imm_arith op opcode_bin operands_str operands =
     (if length operands \<noteq> 3 then Inl (OperandCount op operands_str)
      else bind (parse_register (operands ! 0)) (\<lambda>rs.
           bind (parse_immediate (operands ! 1) 15) (\<lambda>imm.
           bind (parse_register (operands ! 2)) (\<lambda>rd.
           Inr (Some (opcode_bin @ rs @ imm @ rd))))))"

definition encode_ldwd :: "string \<Rightarrow> string \<Rightarrow> string \<Rightarrow> string list \<Rightarrow> error + string option" where
  "encode_ldwd op opcode_bin operands_str operands =
     (if length operands \<noteq> 2 then Inl (OperandCount op operands_str)
      else bind (parse_memory_address (operands ! 0)) (\<lambda>(offset_val, rs_str).
           bind (parse_register (operands ! 1)) (\<lambda>rt.
           bind (parse_register rs_str) (\<lambda>rs.
           bind (parse_immediate (py_str offset_val) 16) (\<lambda>offset_bin.
           Inr (Some (opcode_bin @ rs @ rt @ offset_bin)))))))"

definition encode_srwd :: "string \<Rightarrow> string \<Rightarrow> string \<Rightarrow> string list \<Rightarrow> error + string option" where
  "encode_srwd op opcode_bin operands_str operands =
     (if length operands \<noteq> 2 then Inl (OperandCount op operands_str)
      else bind (parse_register (operands ! 0)) (\<lambda>rt.
           bind (parse_memory_address (operands ! 1)) (\<lambda>(offset_val, rs_str).
           bind (parse_register rs_str) (\<lambda>rs.
           bind (parse_immediate (py_str offset_val) 16) (\<lambda>offset_bin.
           Inr (Some (opcode_bin @ rs @ rt @ offset_bin)))))))"

definition encode_jmp ::
  "string \<Rightarrow> string \<Rightarrow> string \<Rightarrow> string list \<Rightarrow> label_table \<Rightarrow> error + string option" where
  "encode_jmp op opcode_bin operands_str operands label_table =
     (if length operands \<noteq> 1 then Inl (OperandCount op operands_str)
      else bind (lookup_label label_table (operands ! 0)) (\<lambda>address.
           Inr (Some (opcode_bin @ format_bin 26 (int address)))))"

definition encode_pint :: "string \<Rightarrow> string \<Rightarrow> string \<Rightarrow> string list \<Rightarrow> error + string option" where
  "encode_pint op opcode_bin operands_str operands =
     (if length operands \<noteq> 1 then Inl (OperandCount op operands_str)
      else bind (parse_register (operands ! 0)) (\<lambda>rs.
           Inr (Some (opcode_bin @ rs @ replicate 21 CHR ''0''))))"

definition encode_pstr :: "string \<Rightarrow> string \<Rightarrow> string \<Rightarrow> string list \<Rightarrow> error + string option" where
  "encode_pstr op opcode_bin operands_str operands =
     (if length operands \<noteq> 1 then Inl (OperandCount op operands_str)
      else bind (parse_memory_address (operands ! 0)) (\<lambda>(offset_val, rs_str).
           bind (parse_register rs_str) (\<lambda>rs.
           bind (parse_immediate (py_str offset_val) 21) (\<lambda>offset_bin.
           Inr (Some (opcode_bin @ offset_bin @ rs))))))"

definition encode_for ::
  "string \<Rightarrow> string \<Rightarrow> string \<Rightarrow> string list \<Rightarrow> label_table \<Rightarrow> error + string option" where
  "encode_for op opcode_bin operands_str operands label_table =
     (if length operands \<noteq> 2 then Inl (OperandCount op operands_str)
      else bind (parse_register (operands ! 0)) (\<lambda>rs.
           bind (lookup_label label_table (operands ! 1)) (\<lambda>address.
           Inr (Some (opcode_bin @ rs @ format_bin 21 (int address))))))"

definition encode_two_registers :: "string \<Rightarrow> string \<Rightarrow> string \<Rightarrow> string list \<Rightarrow> error + string option" where
  \<comment> \<open>the branch of sqrt and the branch of sqr, which have the same text\<close>
  "encode_two_registers op opcode_bin operands_str operands =
     (if length operands \<noteq> 2 then Inl (OperandCount op operands_str)
      else bind (parse_register (operands ! 0)) (\<lambda>rs.
           bind (parse_register (operands ! 1)) (\<lambda>rd.
           Inr (Some (opcode_bin @ rs @ rd @ replicate 16 CHR ''0'')))))"

definition encode_if ::
  "string \<Rightarrow> string \<Rightarrow> string \<Rightarrow> string list \<Rightarrow> label_table \<Rightarrow> error + string option" where
  \<comment> \<open>ife, ifne\<close>
  "encode_if op opcode_bin operands_str operands label_table =
     (if length operands \<noteq> 3 then Inl (OperandCount op operands_str)
      else bind (parse_register (operands ! 0)) (\<lambda>rs.
           bind (parse_register (operands ! 1)) (\<lambda>rt.
           bind (lookup_label label_table (operands ! 2)) (\<lambda>address.
           Inr (Some (opcode_bin @ rs @ rt @ format_bin 16 (int address)))))))"

definition encode_ldad ::
  "string \<Rightarrow> string \<Rightarrow> string \<Rightarrow> string list \<Rightarrow> label_table \<Rightarrow> error + string option" where
  \<comment> \<open>the register is parsed before the label is looked up\<close>
  "encode_ldad op opcode_bin operands_str operands label_table =
     (if length operands \<noteq> 2 then Inl (OperandCount op operands_str)
      else bind (parse_register (operands ! 1)) (\<lambda>rd.
           bind (lookup_label label_table (operands ! 0)) (\<lambda>address.
           Inr (Some (opcode_bin @ format_bin 21 (int address) @ rd)))))"

definition encode_ldim :: "string \<Rightarrow> string \<Rightarrow> string \<Rightarrow> string list \<Rightarrow> error + string option" where
  "encode_ldim op opcode_bin operands_str operands =
     (if length operands \<noteq> 2 then Inl (OperandCount op operands_str)
      else bind (parse_immediate (operands ! 0) 21) (\<lambda>imm.
           bind (parse_register (operands ! 1)) (\<lambda>rd.
           Inr (Some (opcode_bin @ imm @ rd)))))"

definition encode_operands ::
  "string \<Rightarrow> string \<Rightarrow> string \<Rightarrow> string list \<Rightarrow> label_table \<Rightarrow> error + string option" where
  \<comment> \<open>the chain "Instruction Format Handling" of \<open>assemble_line\<close>, in source order\<close>
  "encode_operands op opcode_bin operands_str operands label_table =
    (if op \<in> set [''cmb'', ''mns'', ''mlt'', ''dvd'', ''mdlo'']
       then encode_r_type op opcode_bin operands_str operands
     else if op \<in> set [''cmbi'', ''mnsi'', ''mlti'', ''dvdi'']
       then encode_imm_arith op opcode_bin operands_str operands
     else if op = ''ldwd'' then encode_ldwd op opcode_bin operands_str operands
     else if op = ''srwd'' then encode_srwd op opcode_bin operands_str operands
     else if op = ''jmp'' then encode_jmp op opcode_bin operands_str operands label_table
     else if op = ''pint'' then encode_pint op opcode_bin operands_str operands
     else if op = ''pstr'' then encode_pstr op opcode_bin operands_str operands
     else if op = ''for'' then encode_for op opcode_bin operands_str operands label_table
     else if op = ''sqrt'' then encode_two_registers op opcode_bin operands_str operands
     else if op = ''sqr'' then encode_two_registers op opcode_bin operands_str operands
     else if op \<in> set [''ife'', ''ifne'']
       then encode_if op opcode_bin operands_str operands label_table
     else if op = ''ldad'' then encode_ldad op opcode_bin operands_str operands label_table
     else if op = ''ldim'' then encode_ldim op opcode_bin operands_str operands
     else Inl (NotImplemented op))"

definition assemble_line :: "string \<Rightarrow> label_table \<Rightarrow> nat \<Rightarrow> error + string option" where
  \<comment> \<open>\<open>Inr None\<close> is the return value \<open>None\<close>, \<open>Inr (Some w)\<close> a returned string\<close>
  "assemble_line line label_table current_address =
     (case py_split_max1 line of
        [] \<Rightarrow> Inl IndexError
      | p0 # ps \<Rightarrow>
          let op = py_lower p0 in
          if op = [] then Inr None
          else if op = ''clr'' then Inr (Some (''000000'' @ replicate 26 CHR ''0''))
          else if op = ''end'' then Inr (Some (replicate 32 CHR ''1''))
          else (case map_of opcodes op of
                  None \<Rightarrow> Inl (UnknownInstruction op)
                | Some opcode_bin \<Rightarrow>
                    let operands_str = (case ps of [] \<Rightarrow> [] | r # _ \<Rightarrow> r);
                        operands = map py_strip (py_split_on CHR '','' operands_str)
                    in encode_operands op opcode_bin operands_str operands label_table))"

subsection \<open>The two passes\<close>

record cleaned_line =
  line :: string
  addr :: nat
  orig_line :: nat

definition is_ident_start :: "char \<Rightarrow> bool" where
  \<comment> \<open>\<open>[a-zA-Z_]\<close>\<close>
  "is_ident_start c \<longleftrightarrow>
     (let n = (of_char c :: nat) in (0x61 \<le> n \<and> n \<le> 0x7A) \<or> (0x41 \<le> n \<and> n \<le> 0x5A) \<or> c = CHR ''_'')"

definition is_ident_char :: "char \<Rightarrow> bool" where
  \<comment> \<open>\<open>[a-zA-Z0-9_]\<close>\<close>
  "is_ident_char c \<longleftrightarrow> is_ident_start c \<or> is_digit c"

definition label_match :: "string \<Rightarrow> string option" where
  \<comment> \<open>\<open>re.match(r"^([a-zA-Z_][a-zA-Z0-9_]*):$", s)\<close>: the group; \<open>$\<close> also matches before
      a final newline\<close>
  "label_match s =
     (case s of
        [] \<Rightarrow> None
      | c # cs \<Rightarrow>
          if is_ident_start c then
            (let rest = dropWhile is_ident_char cs in
             if rest = '':'' \<or> rest = [CHR '':'', CHR 0x0A]
             then Some (c # takeWhile is_ident_char cs) else None)
          else None)"

fun pass1 ::
  "nat \<Rightarrow> string list \<Rightarrow> label_table \<Rightarrow> cleaned_line list \<Rightarrow> nat
     \<Rightarrow> error + (label_table \<times> cleaned_line list)" where
  \<comment> \<open>the loop of Pass 1 from source line \<open>line_num\<close> on, with the label table, the
      cleaned lines and the current address so far\<close>
  "pass1 line_num [] label_table cleaned_lines current_address = Inr (label_table, cleaned_lines)"
| "pass1 line_num (l # ls) label_table cleaned_lines current_address =
     (let line_stripped = py_strip (hd (py_split_on CHR ''#'' l)) in
      if line_stripped = [] then pass1 (Suc line_num) ls label_table cleaned_lines current_address
      else (case label_match line_stripped of
              Some label \<Rightarrow>
                if label \<in> dom label_table then Inl (DuplicateLabel label line_num)
                else pass1 (Suc line_num) ls (label_table(label \<mapsto> current_address))
                       cleaned_lines current_address
            | None \<Rightarrow>
                pass1 (Suc line_num) ls label_table
                  (cleaned_lines @
                     [\<lparr>line = line_stripped, addr = current_address, orig_line = line_num\<rparr>])
                  (Suc current_address)))"

fun pass2 :: "cleaned_line list \<Rightarrow> label_table \<Rightarrow> string list \<Rightarrow> error + string list" where
  \<comment> \<open>the loop of Pass 2, with the assembled code so far\<close>
  "pass2 [] label_table assembled_code = Inr assembled_code"
| "pass2 (item # items) label_table assembled_code =
     (case assemble_line (line item) label_table (addr item) of
        Inl e \<Rightarrow> Inl e
      | Inr None \<Rightarrow> pass2 items label_table assembled_code
      | Inr (Some binary_code) \<Rightarrow>
          if binary_code = [] then pass2 items label_table assembled_code
          else if length binary_code \<noteq> 32
          then Inl (EncodingWidth (line item) (length binary_code))
          else pass2 items label_table (assembled_code @ [binary_code]))"

definition run_assembler :: "string list \<Rightarrow> string list option \<Rightarrow> error option \<times> string list option" where
  \<comment> \<open>The input file is given by its lines.  The second argument is the content of the
      output file before the run (\<open>None\<close>: no such file); the result is the error that ended
      the run with \<open>sys.exit(1)\<close>, if any, and the content of the output file after the
      run.  The output file is opened only after both passes.\<close>
  "run_assembler input output_before =
     (case pass1 1 input Map.empty [] 0 of
        Inl e \<Rightarrow> (Some e, output_before)
      | Inr (label_table, cleaned_lines) \<Rightarrow>
          (case pass2 cleaned_lines label_table [] of
             Inl e \<Rightarrow> (Some e, output_before)
           | Inr assembled_code \<Rightarrow>
               (None, Some (map (\<lambda>binary_line. binary_line @ [CHR 0x0A]) assembled_code))))"

section \<open>SMD.py: the disassembler\<close>

definition opcodes_to_mnemonics :: "(string \<times> string) list" where
  "opcodes_to_mnemonics =
    [(''000000'', ''clr''), (''000001'', ''cmb''), (''000010'', ''mns''), (''000011'', ''mlt''),
     (''000100'', ''dvd''), (''000101'', ''cmbi''), (''000110'', ''ldwd''), (''000111'', ''srwd''),
     (''001000'', ''jmp''), (''001001'', ''pint''), (''001010'', ''pstr''), (''001011'', ''mnsi''),
     (''001100'', ''mlti''), (''001101'', ''dvdi''), (''001110'', ''for''), (''001111'', ''sqrt''),
     (''010000'', ''mdlo''), (''010001'', ''sqr''), (''010010'', ''ife''), (''010011'', ''ifne''),
     (''010100'', ''ldad''), (''010101'', ''ldim''), (''111111'', ''end'')]"

definition registers_to_names :: "(string \<times> string) list" where
  \<comment> \<open>\<open>{format(i, '05b'): f"%r{i}" for i in range(32)}\<close>\<close>
  "registers_to_names = map (\<lambda>i. (format_bin 5 (int i), ''%r'' @ py_str (int i))) [0..<32]"

definition bin_to_int :: "string \<Rightarrow> error + int" where
  "bin_to_int bin_str =
     (if bin_str = [] then Inr 0
      else case py_int 2 bin_str of
             None \<Rightarrow> Inl (InvalidBinaryLiteral bin_str)
           | Some v \<Rightarrow> Inr v)"

definition bin_to_signed_int :: "string \<Rightarrow> error + int" where
  "bin_to_signed_int bin_str =
     (if bin_str = [] then Inr 0
      else case py_int 2 bin_str of
             None \<Rightarrow> Inl (InvalidBinaryLiteral bin_str)
           | Some v \<Rightarrow>
               let bits = length bin_str in
               if v AND push_bit (bits - 1) 1 \<noteq> 0 then Inr (v - push_bit bits 1) else Inr v)"

definition get_register_name :: "string \<Rightarrow> string" where
  "get_register_name reg_bin =
     (case map_of registers_to_names reg_bin of
        Some name \<Rightarrow> name
      | None \<Rightarrow> ''INVALID('' @ reg_bin @ '')'')"

text \<open>One definition for each decode branch of \<open>disassemble_instruction\<close>.\<close>

definition decode_r_type :: "string \<Rightarrow> string \<Rightarrow> error + string" where
  "decode_r_type mnemonic binary_string =
     (let rs_name = get_register_name (slice 6 11 binary_string);
          rt_name = get_register_name (slice 11 16 binary_string);
          rd_name = get_register_name (slice 16 21 binary_string)
      in Inr (mnemonic @ '' '' @ rs_name @ '', '' @ rt_name @ '', '' @ rd_name))"

definition decode_imm_arith :: "string \<Rightarrow> string \<Rightarrow> error + string" where
  "decode_imm_arith mnemonic binary_string =
     (let rs_name = get_register_name (slice 6 11 binary_string);
          rd_name = get_register_name (slice 26 31 binary_string)
      in bind (bin_to_int (slice 11 26 binary_string)) (\<lambda>imm_val.
         Inr (mnemonic @ '' '' @ rs_name @ '', '' @ py_str imm_val @ '', '' @ rd_name)))"

definition decode_ldwd :: "string \<Rightarrow> string \<Rightarrow> error + string" where
  "decode_ldwd mnemonic binary_string =
     (let rs_name = get_register_name (slice 6 11 binary_string);
          rt_name = get_register_name (slice 11 16 binary_string)
      in bind (bin_to_signed_int (slice 16 32 binary_string)) (\<lambda>offset_val.
         Inr (mnemonic @ '' '' @ py_str offset_val @ ''('' @ rs_name @ ''), '' @ rt_name)))"

definition decode_srwd :: "string \<Rightarrow> string \<Rightarrow> error + string" where
  "decode_srwd mnemonic binary_string =
     (let rs_name = get_register_name (slice 6 11 binary_string);
          rt_name = get_register_name (slice 11 16 binary_string)
      in bind (bin_to_signed_int (slice 16 32 binary_string)) (\<lambda>offset_val.
         Inr (mnemonic @ '' '' @ rt_name @ '', '' @ py_str offset_val @ ''('' @ rs_name @ '')'')))"

definition decode_jmp :: "string \<Rightarrow> string \<Rightarrow> error + string" where
  "decode_jmp mnemonic binary_string =
     bind (bin_to_int (slice 6 32 binary_string)) (\<lambda>target_address.
       Inr (mnemonic @ '' '' @ py_str target_address))"

definition decode_pint :: "string \<Rightarrow> string \<Rightarrow> error + string" where
  "decode_pint mnemonic binary_string =
     Inr (mnemonic @ '' '' @ get_register_name (slice 6 11 binary_string))"

definition decode_pstr :: "string \<Rightarrow> string \<Rightarrow> error + string" where
  "decode_pstr mnemonic binary_string =
     (let rs_name = get_register_name (slice 27 32 binary_string)
      in bind (bin_to_signed_int (slice 6 27 binary_string)) (\<lambda>offset_val.
         Inr (mnemonic @ '' '' @ py_str offset_val @ ''('' @ rs_name @ '')'')))"

definition decode_for :: "string \<Rightarrow> string \<Rightarrow> error + string" where
  "decode_for mnemonic binary_string =
     (let rs_name = get_register_name (slice 6 11 binary_string)
      in bind (bin_to_int (slice 11 32 binary_string)) (\<lambda>target_address.
         Inr (mnemonic @ '' '' @ rs_name @ '', '' @ py_str target_address)))"

definition decode_two_registers :: "string \<Rightarrow> string \<Rightarrow> error + string" where
  \<comment> \<open>sqrt, sqr\<close>
  "decode_two_registers mnemonic binary_string =
     (let rs_name = get_register_name (slice 6 11 binary_string);
          rd_name = get_register_name (slice 11 16 binary_string)
      in Inr (mnemonic @ '' '' @ rs_name @ '', '' @ rd_name))"

definition decode_if :: "string \<Rightarrow> string \<Rightarrow> error + string" where
  \<comment> \<open>ife, ifne\<close>
  "decode_if mnemonic binary_string =
     (let rs_name = get_register_name (slice 6 11 binary_string);
          rt_name = get_register_name (slice 11 16 binary_string)
      in bind (bin_to_int (slice 16 32 binary_string)) (\<lambda>target_address.
         Inr (mnemonic @ '' '' @ rs_name @ '', '' @ rt_name @ '', '' @ py_str target_address)))"

definition decode_ldad :: "string \<Rightarrow> string \<Rightarrow> error + string" where
  "decode_ldad mnemonic binary_string =
     (let rd_name = get_register_name (slice 27 32 binary_string)
      in bind (bin_to_int (slice 6 27 binary_string)) (\<lambda>address_val.
         Inr (mnemonic @ '' '' @ py_str address_val @ '', '' @ rd_name)))"

definition decode_ldim :: "string \<Rightarrow> string \<Rightarrow> error + string" where
  "decode_ldim mnemonic binary_string =
     (let rd_name = get_register_name (slice 27 32 binary_string)
      in bind (bin_to_signed_int (slice 6 27 binary_string)) (\<lambda>imm_val.
         Inr (mnemonic @ '' '' @ py_str imm_val @ '', '' @ rd_name)))"

definition decode_operands :: "string \<Rightarrow> string \<Rightarrow> string \<Rightarrow> error + string" where
  \<comment> \<open>the chain "Decode based on mnemonic/opcode", in source order, with its fallback\<close>
  "decode_operands mnemonic opcode_bin binary_string =
     (if mnemonic \<in> set [''cmb'', ''mns'', ''mlt'', ''dvd'', ''mdlo'']
        then decode_r_type mnemonic binary_string
      else if mnemonic \<in> set [''cmbi'', ''mnsi'', ''mlti'', ''dvdi'']
        then decode_imm_arith mnemonic binary_string
      else if mnemonic = ''ldwd'' then decode_ldwd mnemonic binary_string
      else if mnemonic = ''srwd'' then decode_srwd mnemonic binary_string
      else if mnemonic = ''jmp'' then decode_jmp mnemonic binary_string
      else if mnemonic = ''pint'' then decode_pint mnemonic binary_string
      else if mnemonic = ''pstr'' then decode_pstr mnemonic binary_string
      else if mnemonic = ''for'' then decode_for mnemonic binary_string
      else if mnemonic \<in> set [''sqrt'', ''sqr''] then decode_two_registers mnemonic binary_string
      else if mnemonic \<in> set [''ife'', ''ifne''] then decode_if mnemonic binary_string
      else if mnemonic = ''ldad'' then decode_ldad mnemonic binary_string
      else if mnemonic = ''ldim'' then decode_ldim mnemonic binary_string
      else Inr (''; Error: Disassembly logic not implemented for opcode '' @ opcode_bin
                @ '' ('' @ mnemonic @ '')''))"

definition disassemble_instruction :: "string \<Rightarrow> nat \<Rightarrow> error + string" where
  \<comment> \<open>\<open>Inl\<close> is a ValueError of \<open>int(s, 2)\<close>; every returned text, the inline error
      markers included, is \<open>Inr\<close>\<close>
  "disassemble_instruction binary_string address =
    (if length binary_string \<noteq> 32 then
       Inr (''; Error: Invalid instruction length ('' @ py_str (int (length binary_string))
            @ '' bits) at address '' @ py_str (int address) @ '': '' @ binary_string)
     else
     let opcode_bin = slice 0 6 binary_string in
     if binary_string = replicate 32 CHR ''1'' then Inr ''end''
     else if binary_string = replicate 32 CHR ''0'' \<and> opcode_bin = ''000000'' then Inr ''clr''
     else case map_of opcodes_to_mnemonics opcode_bin of
       None \<Rightarrow> Inr (''; Error: Unknown opcode '' @ opcode_bin @ '' at address ''
                    @ py_str (int address) @ '': '' @ binary_string)
     | Some mnemonic \<Rightarrow> decode_operands mnemonic opcode_bin binary_string)"

fun disassembly_pass :: "nat \<Rightarrow> string list \<Rightarrow> string list \<Rightarrow> error + string list" where
  \<comment> \<open>the loop over \<open>enumerate(binary_lines)\<close> from index \<open>address\<close> on, with the
      disassembled lines so far\<close>
  "disassembly_pass address [] disassembled_lines = Inr disassembled_lines"
| "disassembly_pass address (l # ls) disassembled_lines =
     (let binary_line = py_strip l in
      if binary_line = [] then disassembly_pass (Suc address) ls disassembled_lines
      else if length binary_line \<noteq> 32 then
        disassembly_pass (Suc address) ls
          (disassembled_lines @ [''; Error: Invalid length at address '' @ py_str (int address)])
      else (case disassemble_instruction binary_line address of
              Inl e \<Rightarrow> Inl e
            | Inr assembly_instruction \<Rightarrow>
                disassembly_pass (Suc address) ls (disassembled_lines @ [assembly_instruction])))"


section \<open>Auxiliary notions for the proofs\<close>

fun digits_value :: "nat \<Rightarrow> nat \<Rightarrow> string \<Rightarrow> nat" where
  \<comment> \<open>the value of a digit string in a base, continuing from an accumulator\<close>
  "digits_value base acc [] = acc"
| "digits_value base acc (c # cs) = digits_value base (acc * base + digit_value c) cs"

definition is_bit :: "char \<Rightarrow> bool" where
  "is_bit c \<longleftrightarrow> c = CHR ''0'' \<or> c = CHR ''1''"

definition clean_line :: "string \<Rightarrow> string" where
  \<comment> \<open>what Pass 1 keeps of a source line: the text before the first \<open>#\<close>, stripped\<close>
  "clean_line l = py_strip (hd (py_split_on CHR ''#'' l))"

definition label_of :: "string \<Rightarrow> string option" where
  \<comment> \<open>the identifier that a source line defines, when Pass 1 takes it as a label\<close>
  "label_of l = label_match (clean_line l)"

definition is_instruction :: "string \<Rightarrow> bool" where
  \<comment> \<open>the source lines that Pass 1 records as instructions\<close>
  "is_instruction l \<longleftrightarrow> clean_line l \<noteq> [] \<and> label_match (clean_line l) = None"


fun labels :: "string list \<Rightarrow> string list" where
  \<comment> \<open>the identifiers defined by a list of source lines, in order\<close>
  "labels [] = []"
| "labels (l # ls) = (case label_of l of Some L \<Rightarrow> L # labels ls | None \<Rightarrow> labels ls)"



section \<open>Instructions and their canonical text, for the round trip\<close>

text \<open>
  The instruction forms of the ISA table, without the register-immediate group (cmbi,
  mnsi, mlti, dvdi): operands are register numbers, integers and label names.
\<close>

datatype instruction =
    RType string nat nat nat      \<comment> \<open>\<open>m %rs, %rt, %rd\<close> for cmb, mns, mlt, dvd, mdlo\<close>
  | Ldwd int nat nat              \<comment> \<open>\<open>ldwd offset(%rs), %rt\<close>\<close>
  | Srwd nat int nat              \<comment> \<open>\<open>srwd %rt, offset(%rs)\<close>\<close>
  | Jmp string                    \<comment> \<open>\<open>jmp label\<close>\<close>
  | Pint nat                      \<comment> \<open>\<open>pint %rs\<close>\<close>
  | Pstr int nat                  \<comment> \<open>\<open>pstr offset(%rs)\<close>\<close>
  | For nat string                \<comment> \<open>\<open>for %rs, label\<close>\<close>
  | TwoReg string nat nat         \<comment> \<open>\<open>m %rs, %rd\<close> for sqrt, sqr\<close>
  | Branch string nat nat string  \<comment> \<open>\<open>m %rs, %rt, label\<close> for ife, ifne\<close>
  | Ldad string nat               \<comment> \<open>\<open>ldad label, %rd\<close>\<close>
  | Ldim int nat                  \<comment> \<open>\<open>ldim imm, %rd\<close>\<close>
  | Clr
  | End

definition reg_name :: "nat \<Rightarrow> string" where
  "reg_name i = ''%r'' @ py_str (int i)"

fun render :: "(string \<Rightarrow> string) \<Rightarrow> instruction \<Rightarrow> string" where
  \<comment> \<open>the text of an instruction in the layout that the disassembler prints; the first
      argument renders a label operand\<close>
  "render lab (RType m rs rt rd) = m @ '' '' @ reg_name rs @ '', '' @ reg_name rt @ '', '' @ reg_name rd"
| "render lab (Ldwd off rs rt) = ''ldwd '' @ py_str off @ ''('' @ reg_name rs @ ''), '' @ reg_name rt"
| "render lab (Srwd rt off rs) = ''srwd '' @ reg_name rt @ '', '' @ py_str off @ ''('' @ reg_name rs @ '')''"
| "render lab (Jmp l) = ''jmp '' @ lab l"
| "render lab (Pint rs) = ''pint '' @ reg_name rs"
| "render lab (Pstr off rs) = ''pstr '' @ py_str off @ ''('' @ reg_name rs @ '')''"
| "render lab (For rs l) = ''for '' @ reg_name rs @ '', '' @ lab l"
| "render lab (TwoReg m rs rd) = m @ '' '' @ reg_name rs @ '', '' @ reg_name rd"
| "render lab (Branch m rs rt l) = m @ '' '' @ reg_name rs @ '', '' @ reg_name rt @ '', '' @ lab l"
| "render lab (Ldad l rd) = ''ldad '' @ lab l @ '', '' @ reg_name rd"
| "render lab (Ldim v rd) = ''ldim '' @ py_str v @ '', '' @ reg_name rd"
| "render lab Clr = ''clr''"
| "render lab End = ''end''"

definition asm_text :: "instruction \<Rightarrow> string" where
  \<comment> \<open>the assembly text, with label operands as names\<close>
  "asm_text = render (\<lambda>l. l)"

definition resolved_text :: "label_table \<Rightarrow> instruction \<Rightarrow> string" where
  \<comment> \<open>the canonical rendering, with label operands as their resolved addresses\<close>
  "resolved_text label_table = render (\<lambda>l. py_str (int (the (label_table l))))"

definition is_label :: "string \<Rightarrow> bool" where
  \<comment> \<open>the identifiers that Pass 1 binds: \<open>[a-zA-Z_][a-zA-Z0-9_]*\<close>\<close>
  "is_label l \<longleftrightarrow> l \<noteq> [] \<and> is_ident_start (hd l) \<and> (\<forall>c \<in> set (tl l). is_ident_char c)"

definition label_below :: "label_table \<Rightarrow> string \<Rightarrow> nat \<Rightarrow> bool" where
  \<comment> \<open>the label is an identifier bound to an address that fits an address field of the
      given width\<close>
  "label_below label_table l width \<longleftrightarrow>
     is_label l \<and> (case label_table l of None \<Rightarrow> False | Some a \<Rightarrow> a < 2 ^ width)"

definition signed_in :: "int \<Rightarrow> nat \<Rightarrow> bool" where
  \<comment> \<open>the two's-complement range of a field of the given width\<close>
  "signed_in v width \<longleftrightarrow> - (2 ^ (width - 1)) \<le> v \<and> v < 2 ^ (width - 1)"

fun well_formed :: "label_table \<Rightarrow> instruction \<Rightarrow> bool" where
  "well_formed tbl (RType m rs rt rd) \<longleftrightarrow>
     m \<in> set [''cmb'', ''mns'', ''mlt'', ''dvd'', ''mdlo''] \<and> rs < 32 \<and> rt < 32 \<and> rd < 32"
| "well_formed tbl (Ldwd off rs rt) \<longleftrightarrow> signed_in off 16 \<and> rs < 32 \<and> rt < 32"
| "well_formed tbl (Srwd rt off rs) \<longleftrightarrow> signed_in off 16 \<and> rs < 32 \<and> rt < 32"
| "well_formed tbl (Jmp l) \<longleftrightarrow> label_below tbl l 26"
| "well_formed tbl (Pint rs) \<longleftrightarrow> rs < 32"
| "well_formed tbl (Pstr off rs) \<longleftrightarrow> signed_in off 21 \<and> rs < 32"
| "well_formed tbl (For rs l) \<longleftrightarrow> rs < 32 \<and> label_below tbl l 21"
| "well_formed tbl (TwoReg m rs rd) \<longleftrightarrow> m \<in> set [''sqrt'', ''sqr''] \<and> rs < 32 \<and> rd < 32"
| "well_formed tbl (Branch m rs rt l) \<longleftrightarrow>
     m \<in> set [''ife'', ''ifne''] \<and> rs < 32 \<and> rt < 32 \<and> label_below tbl l 16"
| "well_formed tbl (Ldad l rd) \<longleftrightarrow> label_below tbl l 21 \<and> rd < 32"
| "well_formed tbl (Ldim v rd) \<longleftrightarrow> signed_in v 21 \<and> rd < 32"
| "well_formed tbl Clr \<longleftrightarrow> True"
| "well_formed tbl End \<longleftrightarrow> True"

definition plain :: "string \<Rightarrow> bool" where
  \<comment> \<open>a non-empty operand text without blanks and commas\<close>
  "plain s \<longleftrightarrow> s \<noteq> [] \<and> (\<forall>c \<in> set s. \<not> py_isspace c \<and> c \<noteq> CHR '','')"

section \<open>Properties of the string and integer primitives\<close>

lemma digit_char_props:
  assumes "d < 10"
  shows "is_digit (digit_char d)" and "digit_value (digit_char d) = d"
  using assms by (simp_all add: is_digit_def digit_value_def digit_char_def)

lemma is_digit_not_special:
  assumes "is_digit c"
  shows "\<not> py_isspace c" "\<not> int_isspace c" "c \<noteq> CHR '',''" "c \<noteq> CHR ''_''" "c \<noteq> CHR ''+''"
    "c \<noteq> CHR ''-''" "c \<noteq> CHR ''(''" "c \<noteq> CHR '')''" "c \<noteq> CHR ''%''" "c \<noteq> CHR ''b''" "c \<noteq> CHR ''B''"
  using assms by (auto simp: is_digit_def py_isspace_def int_isspace_def)

lemma str_nat_digits: "c \<in> set (str_nat n) \<Longrightarrow> is_digit c"
proof (induction n arbitrary: c rule: str_nat.induct)
  case (1 n)
  show ?case
  proof (cases "n < 10")
    case True
    with "1.prems" show ?thesis by (simp add: str_nat.simps[of n] digit_char_props)
  next
    case False
    with "1.prems" "1.IH" show ?thesis
      by (auto simp: str_nat.simps[of n] digit_char_props)
  qed
qed

lemma str_nat_nonempty: "str_nat n \<noteq> []"
  by (subst str_nat.simps) simp

lemma digits_value_append:
  "digits_value b acc (xs @ ys) = digits_value b (digits_value b acc xs) ys"
  by (induction xs arbitrary: acc) simp_all

lemma py_digits_plain:
  assumes "\<forall>c \<in> set ds. digit_value c < b \<and> c \<noteq> CHR ''_''"
    and "rest = [] \<or> (hd rest \<noteq> CHR ''_'' \<and> \<not> digit_value (hd rest) < b)"
  shows "py_digits b False acc (ds @ rest) = Some (digits_value b acc ds, rest)"
  using assms
proof (induction ds arbitrary: acc)
  case Nil
  then show ?case by (cases rest) auto
next
  case (Cons d ds)
  then show ?case by simp
qed

lemma digits_value_str_nat: "digits_value 10 acc (str_nat n) = acc * 10 ^ length (str_nat n) + n"
proof (induction n arbitrary: acc rule: str_nat.induct)
  case (1 n)
  show ?case
  proof (cases "n < 10")
    case True
    then show ?thesis by (simp add: str_nat.simps[of n] digit_char_props)
  next
    case False
    have "digits_value 10 acc (str_nat n)
        = digits_value 10 acc (str_nat (n div 10)) * 10 + n mod 10"
      using False by (simp add: str_nat.simps[of n] digits_value_append digit_char_props)
    also have "\<dots> = (acc * 10 ^ length (str_nat (n div 10)) + n div 10) * 10 + n mod 10"
      using False "1.IH" by simp
    also have "\<dots> = acc * 10 ^ length (str_nat n) + n"
      using False by (simp add: str_nat.simps[of n] algebra_simps)
    finally show ?thesis .
  qed
qed

lemma skip_base_prefix_digits:
  assumes "\<forall>c \<in> set ds. is_digit c"
  shows "skip_base_prefix b ds = ds"
proof (cases ds)
  case Nil
  then show ?thesis by (simp add: skip_base_prefix_def)
next
  case outer: (Cons x xs)
  show ?thesis
  proof (cases xs)
    case Nil
    then show ?thesis by (simp add: skip_base_prefix_def outer)
  next
    case (Cons d ys)
    have "is_digit d" using assms outer Cons by simp
    then have "d \<noteq> CHR ''b''" "d \<noteq> CHR ''B''"
      by (rule is_digit_not_special(10), rule is_digit_not_special(11))
    then show ?thesis by (simp add: skip_base_prefix_def outer Cons)
  qed
qed

lemma over_limit_code [code]: "over_limit n \<longleftrightarrow> 4300 < int n"
  by (simp add: over_limit_def max_str_digits_def)

lemma count_digits_plain:
  "\<forall>c \<in> set ds. c \<noteq> CHR ''_'' \<Longrightarrow> count_digits ds = length ds"
  by (induction ds) (simp_all add: count_digits_def)

lemma py_int_digits_limit:
  assumes "ds \<noteq> []" "\<forall>c \<in> set ds. is_digit c \<and> digit_value c < b"
  shows "py_int b ds = (if b \<noteq> 2 \<and> max_str_digits < length ds then None
                        else Some (int (digits_value b 0 ds)))"
    and "py_int b (CHR ''-'' # ds) = (if b \<noteq> 2 \<and> max_str_digits < length ds then None
                        else Some (- int (digits_value b 0 ds)))"
proof -
  obtain d ds' where ds: "ds = d # ds'" using assms(1) by (cases ds) auto
  have d: "is_digit d" "digit_value d < b" using assms(2) ds by auto
  have us: "\<forall>c \<in> set ds. digit_value c < b \<and> c \<noteq> CHR ''_''"
    using assms(2) is_digit_not_special(4) by auto
  have pd: "py_digits b False 0 ds = Some (digits_value b 0 ds, [])"
    using py_digits_plain[OF us, of "[]" 0] by simp
  have cd: "count_digits (take (length ds - length ([]::string)) ds) = length ds"
    using count_digits_plain[of ds] us by simp
  have s3: "skip_base_prefix b ds = ds"
    using skip_base_prefix_digits assms(2) by simp
  have dw: "dropWhile int_isspace ds = ds"
    using is_digit_not_special(2)[OF d(1)] by (simp add: ds)
  have sg: "split_sign ds = (False, ds)"
    using is_digit_not_special(5,6)[OF d(1)] by (simp add: ds split_sign_def)
  have cs: "(case ds of [] \<Rightarrow> None | c # cs \<Rightarrow> f c) = f d" for f :: "char \<Rightarrow> int option"
    by (simp add: ds)
  show "py_int b ds = (if b \<noteq> 2 \<and> max_str_digits < length ds then None
                        else Some (int (digits_value b 0 ds)))"
    unfolding py_int_def Let_def dw sg prod.case s3 cs pd option.case cd over_limit_def
    using d(2) by simp
  have dw': "dropWhile int_isspace (CHR ''-'' # ds) = CHR ''-'' # ds"
    by (simp add: int_isspace_def)
  have sg': "split_sign (CHR ''-'' # ds) = (True, ds)"
    by (simp add: split_sign_def)
  show "py_int b (CHR ''-'' # ds) = (if b \<noteq> 2 \<and> max_str_digits < length ds then None
                        else Some (- int (digits_value b 0 ds)))"
    unfolding py_int_def Let_def dw' sg' prod.case s3 cs pd option.case cd over_limit_def
    using d(2) by simp
qed

lemma py_int_digits:
  assumes "ds \<noteq> []" "\<forall>c \<in> set ds. is_digit c \<and> digit_value c < b"
    and "b = 2 \<or> length ds \<le> max_str_digits"
  shows "py_int b ds = Some (int (digits_value b 0 ds))"
    and "py_int b (CHR ''-'' # ds) = Some (- int (digits_value b 0 ds))"
  using py_int_digits_limit[OF assms(1,2)] assms(3) by auto

lemma digit_value_is_digit: "is_digit c \<Longrightarrow> digit_value c < 10"
  by (auto simp: is_digit_def digit_value_def)

lemma str_nat_length_le: "0 < k \<Longrightarrow> n < 10 ^ k \<Longrightarrow> length (str_nat n) \<le> k"
proof (induction n arbitrary: k rule: str_nat.induct)
  case (1 n)
  show ?case
  proof (cases "n < 10")
    case True
    then show ?thesis using "1.prems" by (simp add: str_nat.simps[of n])
  next
    case False
    obtain k' where k: "k = Suc k'" using "1.prems"(1) by (cases k) auto
    have "k' > 0" using False "1.prems"(2) k by (cases k') auto
    moreover have "n div 10 < 10 ^ k'" using "1.prems"(2) k by auto
    ultimately have "length (str_nat (n div 10)) \<le> k'" using "1.IH"[OF False] by simp
    then show ?thesis using False k by (simp add: str_nat.simps[of n])
  qed
qed

lemma str_nat_length_gt: "10 ^ k \<le> n \<Longrightarrow> k < length (str_nat n)"
proof (induction n arbitrary: k rule: str_nat.induct)
  case (1 n)
  show ?case
  proof (cases k)
    case 0
    then show ?thesis using str_nat_nonempty[of n] by simp
  next
    case (Suc k')
    have a: "(1::nat) \<le> 10 ^ k'" by simp
    have b: "10 * 10 ^ k' \<le> n" using "1.prems" Suc by simp
    have nl: "\<not> n < 10" using a b by linarith
    have "10 ^ k' \<le> n div 10" using "1.prems" Suc by auto
    then have "k' < length (str_nat (n div 10))" using "1.IH"[OF nl] by simp
    then show ?thesis using nl Suc by (simp add: str_nat.simps[of n])
  qed
qed

lemma max_str_digits_pos: "0 < max_str_digits"
  by (simp add: max_str_digits_def)

lemma str_nat_digit_values: "\<forall>c \<in> set (str_nat n). is_digit c \<and> digit_value c < 10"
  using str_nat_digits digit_value_is_digit by auto

lemma py_int_py_str:
  assumes "\<bar>v\<bar> < 10 ^ max_str_digits"
  shows "py_int 10 (py_str v) = Some v"
proof -
  have "nat \<bar>v\<bar> < 10 ^ max_str_digits"
    using assms by (simp add: nat_less_iff)
  then have len: "length (str_nat (nat \<bar>v\<bar>)) \<le> max_str_digits"
    using str_nat_length_le[OF max_str_digits_pos] by simp
  show ?thesis
  proof (cases "v < 0")
    case True
    then have "nat \<bar>v\<bar> = nat (- v)" by simp
    then have "10 = (2::nat) \<or> length (str_nat (nat (- v))) \<le> max_str_digits"
      using len by simp
    from py_int_digits(2)[OF str_nat_nonempty str_nat_digit_values this] True
    show ?thesis by (simp add: py_str_def digits_value_str_nat)
  next
    case False
    then have "nat \<bar>v\<bar> = nat v" by simp
    then have "10 = (2::nat) \<or> length (str_nat (nat v)) \<le> max_str_digits"
      using len by simp
    from py_int_digits(1)[OF str_nat_nonempty str_nat_digit_values this] False
    show ?thesis by (simp add: py_str_def digits_value_str_nat)
  qed
qed

lemma py_int_py_str_over_limit:
  assumes "10 ^ max_str_digits \<le> \<bar>v\<bar>"
  shows "py_int 10 (py_str v) = None"
proof -
  have "10 ^ max_str_digits \<le> nat \<bar>v\<bar>"
    using assms by (simp add: le_nat_iff)
  then have len: "max_str_digits < length (str_nat (nat \<bar>v\<bar>))"
    by (rule str_nat_length_gt)
  show ?thesis
  proof (cases "v < 0")
    case True
    then have "nat \<bar>v\<bar> = nat (- v)" by simp
    then have "max_str_digits < length (str_nat (nat (- v)))" using len by simp
    with py_int_digits_limit(2)[OF str_nat_nonempty str_nat_digit_values, of "nat (- v)"] True
    show ?thesis by (simp add: py_str_def)
  next
    case False
    then have "nat \<bar>v\<bar> = nat v" by simp
    then have "max_str_digits < length (str_nat (nat v))" using len by simp
    with py_int_digits_limit(1)[OF str_nat_nonempty str_nat_digit_values, of "nat v"] False
    show ?thesis by (simp add: py_str_def)
  qed
qed

lemma remove_commas_id: "CHR '','' \<notin> set s \<Longrightarrow> remove_commas s = s"
  by (induction s) (auto simp: remove_commas_def)

lemma py_str_chars: "c \<in> set (py_str v) \<Longrightarrow> is_digit c \<or> c = CHR ''-''"
  by (auto simp: py_str_def dest: str_nat_digits split: if_splits)

lemma py_str_nonempty: "py_str v \<noteq> []"
  by (simp add: py_str_def str_nat_nonempty)

lemma py_str_no_comma: "CHR '','' \<notin> set (py_str v)"
proof
  assume "CHR '','' \<in> set (py_str v)"
  from py_str_chars[OF this] show False by (simp add: is_digit_def)
qed

lemma py_str_no_space:
  assumes "c \<in> set (py_str v)"
  shows "\<not> py_isspace c"
proof -
  from py_str_chars[OF assms] show ?thesis
  proof
    assume "is_digit c"
    then show ?thesis by (rule is_digit_not_special(1))
  next
    assume "c = CHR ''-''"
    then show ?thesis by (simp add: py_isspace_def)
  qed
qed

lemma digit_char_01: "digit_char 0 = CHR ''0''" "digit_char (Suc 0) = CHR ''1''"
  by code_simp+

lemma bin_nat_chars: "c \<in> set (bin_nat n) \<Longrightarrow> c = CHR ''0'' \<or> c = CHR ''1''"
proof (induction n arbitrary: c rule: bin_nat.induct)
  case (1 n)
  have m: "n mod 2 = 0 \<or> n mod 2 = Suc 0" by arith
  show ?case
  proof (cases "n < 2")
    case True
    then have "n = 0 \<or> n = Suc 0" by arith
    with "1.prems" show ?thesis by (auto simp: bin_nat.simps[of n] digit_char_01)
  next
    case False
    with "1.prems" "1.IH" m show ?thesis
      by (auto simp: bin_nat.simps[of n] digit_char_01)
  qed
qed

lemma bin_nat_nonempty: "bin_nat n \<noteq> []"
  by (subst bin_nat.simps) simp

lemma bin_nat_length: "0 < w \<Longrightarrow> n < 2 ^ w \<Longrightarrow> length (bin_nat n) \<le> w"
proof (induction n arbitrary: w rule: bin_nat.induct)
  case (1 n)
  show ?case
  proof (cases "n < 2")
    case True
    then show ?thesis using "1.prems" by (simp add: bin_nat.simps[of n])
  next
    case False
    obtain w' where w: "w = Suc w'" using "1.prems"(1) by (cases w) auto
    have "w' > 0" using False "1.prems"(2) w by (cases w') auto
    moreover have "n div 2 < 2 ^ w'" using "1.prems"(2) w by auto
    ultimately have "length (bin_nat (n div 2)) \<le> w'" using "1.IH"[OF False] by simp
    then show ?thesis using False w by (simp add: bin_nat.simps[of n])
  qed
qed

lemma bin_nat_length_ge: "2 ^ w \<le> n \<Longrightarrow> w < length (bin_nat n)"
proof (induction n arbitrary: w rule: bin_nat.induct)
  case (1 n)
  show ?case
  proof (cases "n < 2")
    case True
    have "(2::nat) ^ w \<ge> 2" if "w \<noteq> 0"
      using that by (cases w) auto
    then have "w = 0" using "1.prems" True by fastforce
    then show ?thesis using bin_nat_nonempty[of n] by simp
  next
    case False
    show ?thesis
    proof (cases w)
      case 0
      then show ?thesis using bin_nat_nonempty[of n] by simp
    next
      case (Suc w')
      then have "2 ^ w' \<le> n div 2" using "1.prems" by auto
      then have "w' < length (bin_nat (n div 2))" using "1.IH"[OF False] by simp
      then show ?thesis using False Suc by (simp add: bin_nat.simps[of n])
    qed
  qed
qed

lemma digits_value_bin_nat: "digits_value 2 acc (bin_nat n) = acc * 2 ^ length (bin_nat n) + n"
proof (induction n arbitrary: acc rule: bin_nat.induct)
  case (1 n)
  show ?case
  proof (cases "n < 2")
    case True
    then show ?thesis by (simp add: bin_nat.simps[of n] digit_char_props)
  next
    case False
    have m: "n mod 2 < 10" by arith
    have "digits_value 2 acc (bin_nat n)
        = digits_value 2 acc (bin_nat (n div 2)) * 2 + n mod 2"
      using False m by (simp add: bin_nat.simps[of n] digits_value_append digit_char_props)
    also have "\<dots> = (acc * 2 ^ length (bin_nat (n div 2)) + n div 2) * 2 + n mod 2"
      using False "1.IH" by simp
    also have "\<dots> = acc * 2 ^ length (bin_nat n) + n"
      using False by (simp add: bin_nat.simps[of n] algebra_simps)
    finally show ?thesis .
  qed
qed

lemma digits_value_zeros: "digits_value b 0 (replicate k CHR ''0'' @ ds) = digits_value b 0 ds"
  by (induction k) (simp_all add: digit_value_def is_digit_def)

lemma is_bit_digit: "is_bit c \<Longrightarrow> is_digit c \<and> digit_value c < 2"
  by (auto simp: is_bit_def is_digit_def digit_value_def)

lemma format_bin_nonneg:
  assumes "0 \<le> v"
  shows "format_bin w v = replicate (w - length (bin_nat (nat v))) CHR ''0'' @ bin_nat (nat v)"
  using assms by (simp add: format_bin_def)

lemma format_bin_bits: "0 \<le> v \<Longrightarrow> c \<in> set (format_bin w v) \<Longrightarrow> is_bit c"
  using bin_nat_chars by (auto simp: format_bin_nonneg is_bit_def)

lemma format_bin_nonempty: "format_bin w v \<noteq> []"
  by (simp add: format_bin_def bin_nat_nonempty)

lemma format_bin_length:
  assumes "0 \<le> v" "v < 2 ^ w" "0 < w"
  shows "length (format_bin w v) = w"
proof -
  have "nat v < 2 ^ w" using assms by (simp add: nat_less_iff)
  then have "length (bin_nat (nat v)) \<le> w" using bin_nat_length assms(3) by simp
  then show ?thesis using assms(1) by (simp add: format_bin_nonneg)
qed

lemma format_bin_length_big:
  assumes "2 ^ w \<le> v"
  shows "w < length (format_bin w v)"
proof -
  have v0: "0 \<le> v" using assms by (smt (verit) zero_le_power)
  have "2 ^ w \<le> nat v" using assms v0 by (simp add: le_nat_iff)
  then have "w < length (bin_nat (nat v))" by (rule bin_nat_length_ge)
  then show ?thesis using v0 by (simp add: format_bin_nonneg)
qed

lemma py_int_bits:
  assumes "s \<noteq> []" "\<forall>c \<in> set s. is_bit c"
  shows "py_int 2 s = Some (int (digits_value 2 0 s))"
  using py_int_digits(1)[OF assms(1), of 2] assms(2) is_bit_digit by simp

lemma py_int_format_bin:
  assumes "0 \<le> v"
  shows "py_int 2 (format_bin w v) = Some v"
proof -
  have "py_int 2 (format_bin w v) = Some (int (digits_value 2 0 (format_bin w v)))"
    using py_int_bits[OF format_bin_nonempty] format_bin_bits[OF assms] by simp
  also have "digits_value 2 0 (format_bin w v) = nat v"
    using assms by (simp add: format_bin_nonneg digits_value_zeros digits_value_bin_nat)
  finally show ?thesis using assms by simp
qed

lemma digit_chars:
  "char_of (48::nat) = CHR ''0''" "char_of (49::nat) = CHR ''1''" "char_of (50::nat) = CHR ''2''"
  "char_of (51::nat) = CHR ''3''" "char_of (52::nat) = CHR ''4''" "char_of (53::nat) = CHR ''5''"
  "char_of (54::nat) = CHR ''6''" "char_of (55::nat) = CHR ''7''" "char_of (56::nat) = CHR ''8''"
  "char_of (57::nat) = CHR ''9''"
  by code_simp+

lemma digit_char_code [code]:
  "digit_char d = (if d = 0 then CHR ''0'' else if d = 1 then CHR ''1'' else if d = 2 then CHR ''2''
     else if d = 3 then CHR ''3'' else if d = 4 then CHR ''4'' else if d = 5 then CHR ''5''
     else if d = 6 then CHR ''6'' else if d = 7 then CHR ''7'' else if d = 8 then CHR ''8''
     else if d = 9 then CHR ''9'' else char_of (0x30 + d))"
  by (simp add: digit_char_def digit_chars)

section \<open>The tables\<close>

lemma registers_literal [code]:
  "registers =
     [(''%r0'', ''00000''), (''%r1'', ''00001''), (''%r2'', ''00010''), (''%r3'', ''00011''),
      (''%r4'', ''00100''), (''%r5'', ''00101''), (''%r6'', ''00110''), (''%r7'', ''00111''),
      (''%r8'', ''01000''), (''%r9'', ''01001''), (''%r10'', ''01010''), (''%r11'', ''01011''),
      (''%r12'', ''01100''), (''%r13'', ''01101''), (''%r14'', ''01110''), (''%r15'', ''01111''),
      (''%r16'', ''10000''), (''%r17'', ''10001''), (''%r18'', ''10010''), (''%r19'', ''10011''),
      (''%r20'', ''10100''), (''%r21'', ''10101''), (''%r22'', ''10110''), (''%r23'', ''10111''),
      (''%r24'', ''11000''), (''%r25'', ''11001''), (''%r26'', ''11010''), (''%r27'', ''11011''),
      (''%r28'', ''11100''), (''%r29'', ''11101''), (''%r30'', ''11110''), (''%r31'', ''11111'')]"
  by code_simp

lemma registers_to_names_literal [code]:
  "registers_to_names =
     [(''00000'', ''%r0''), (''00001'', ''%r1''), (''00010'', ''%r2''), (''00011'', ''%r3''),
      (''00100'', ''%r4''), (''00101'', ''%r5''), (''00110'', ''%r6''), (''00111'', ''%r7''),
      (''01000'', ''%r8''), (''01001'', ''%r9''), (''01010'', ''%r10''), (''01011'', ''%r11''),
      (''01100'', ''%r12''), (''01101'', ''%r13''), (''01110'', ''%r14''), (''01111'', ''%r15''),
      (''10000'', ''%r16''), (''10001'', ''%r17''), (''10010'', ''%r18''), (''10011'', ''%r19''),
      (''10100'', ''%r20''), (''10101'', ''%r21''), (''10110'', ''%r22''), (''10111'', ''%r23''),
      (''11000'', ''%r24''), (''11001'', ''%r25''), (''11010'', ''%r26''), (''11011'', ''%r27''),
      (''11100'', ''%r28''), (''11101'', ''%r29''), (''11110'', ''%r30''), (''11111'', ''%r31'')]"
  by code_simp

lemma replicate_32_zeros: "replicate 32 CHR ''0'' = ''00000000000000000000000000000000''"
  by code_simp

lemma replicate_32_ones: "replicate 32 CHR ''1'' = ''11111111111111111111111111111111''"
  by code_simp

lemma map_of_swap:
  assumes "distinct (map snd xs)" "map_of xs k = Some v"
  shows "map_of (map (\<lambda>(a, b). (b, a)) xs) v = Some k"
proof -
  have "(k, v) \<in> set xs" using assms(2) by (rule map_of_SomeD)
  then have m: "(v, k) \<in> set (map (\<lambda>(a, b). (b, a)) xs)" by force
  have "map fst (map (\<lambda>(a, b). (b, a)) xs) = map snd xs" by (induction xs) auto
  then have d: "distinct (map fst (map (\<lambda>(a, b). (b, a)) xs))" using assms(1) by metis
  show ?thesis by (rule map_of_is_SomeI[OF d m])
qed

lemma tables_facts:
  "map (\<lambda>(m, c). (c, m)) opcodes = opcodes_to_mnemonics"
  "map (\<lambda>(n, c). (c, n)) registers = registers_to_names"
  "distinct (map fst opcodes)" "distinct (map snd opcodes)"
  "distinct (map fst registers)" "distinct (map snd registers)"
  by code_simp+

lemma swap_swap: "map (\<lambda>(a, b). (b, a)) (map (\<lambda>(a, b). (b, a)) xs) = xs"
  by (induction xs) auto

text \<open>
  C9.  The mnemonic table and the register table of the assembler are injective in both
  components, the two tables of the disassembler are the same lists with the components
  swapped, and so a lookup in one direction succeeds exactly when the lookup in the other
  direction gives back the key.
\<close>

theorem tables_bijective_and_inverse:
  "map (\<lambda>(m, c). (c, m)) opcodes = opcodes_to_mnemonics
   \<and> map (\<lambda>(n, c). (c, n)) registers = registers_to_names
   \<and> distinct (map fst opcodes) \<and> distinct (map snd opcodes)
   \<and> distinct (map fst registers) \<and> distinct (map snd registers)
   \<and> (\<forall>m c. map_of opcodes m = Some c \<longleftrightarrow> map_of opcodes_to_mnemonics c = Some m)
   \<and> (\<forall>n c. map_of registers n = Some c \<longleftrightarrow> map_of registers_to_names c = Some n)"
proof -
  have ds: "distinct (map snd opcodes_to_mnemonics)" "distinct (map snd registers_to_names)"
    by code_simp+
  have inv: "map (\<lambda>(a, b). (b, a)) opcodes_to_mnemonics = opcodes"
     "map (\<lambda>(a, b). (b, a)) registers_to_names = registers"
    unfolding tables_facts(1,2)[symmetric] by (rule swap_swap)+
  have "map_of opcodes m = Some c \<longleftrightarrow> map_of opcodes_to_mnemonics c = Some m" for m c
    using map_of_swap[OF tables_facts(4), of m c] map_of_swap[OF ds(1), of c m]
    unfolding tables_facts(1) inv by blast
  moreover have "map_of registers n = Some c \<longleftrightarrow> map_of registers_to_names c = Some n" for n c
    using map_of_swap[OF tables_facts(6), of n c] map_of_swap[OF ds(2), of c n]
    unfolding tables_facts(2) inv by blast
  ultimately show ?thesis using tables_facts by simp
qed

theorem tables_bijective_and_inverse_witness:
  "map_of opcodes ''ldim'' = Some ''010101'' \<and> map_of opcodes_to_mnemonics ''010101'' = Some ''ldim''
   \<and> map_of registers_to_names ''00111'' = Some ''%r7'' \<and> map_of registers ''%r7'' = Some ''00111''"
proof -
  have a: "map_of opcodes ''ldim'' = Some ''010101''" by code_simp
  have b: "map_of registers_to_names ''00111'' = Some ''%r7''" by code_simp
  show ?thesis using tables_bijective_and_inverse a b by simp
qed

section \<open>Concrete scenarios\<close>

text \<open>
  C7.  The text \<open>ldim 10, %r1\<close> assembles, whatever the label table and the address, to
  the opcode 010101 followed by the 21-bit field of 10 and the register code 00001, and
  that word disassembles to the text \<open>ldim 10, %r1\<close>.
\<close>

theorem ldim_10_r1_scenario:
  "assemble_line ''ldim 10, %r1'' label_table current_address
     = Inr (Some (''010101'' @ format_bin 21 10 @ ''00001''))
   \<and> format_bin 21 10 = ''000000000000000001010''
   \<and> disassemble_instruction (''010101'' @ format_bin 21 10 @ ''00001'') address
     = Inr ''ldim 10, %r1''"
  by code_simp

text \<open>
  C2.  The claim that every valid instruction assembles to 32 characters fails for the
  register-immediate group: \<open>cmbi %r3, 100, %r5\<close> (a line of the example program in
  SMA.py) assembles to 6 + 5 + 15 + 5 = 31 characters, and a run over it ends in the
  width check of Pass 2 without touching the output file.
\<close>

theorem cmbi_is_31_bits:
  "assemble_line ''cmbi %r3, 100, %r5'' label_table current_address
     = Inr (Some ''0001010001100000000110010000101'')
   \<and> length ''0001010001100000000110010000101'' = 31
   \<and> run_assembler [''cmbi %r3, 100, %r5''] output_before
     = (Some (EncodingWidth ''cmbi %r3, 100, %r5'' 31), output_before)"
  by code_simp

lemma clr_lookup: "map_of opcodes_to_mnemonics ''000000'' = Some ''clr''"
  by code_simp

text \<open>
  C10.  A word of 32 characters whose first six are 000000 and which is not the word of
  32 zeros is answered by the fallback marker of \<open>disassemble_instruction\<close>, not by
  \<open>clr\<close>; the word of 32 zeros is answered by \<open>clr\<close>.
\<close>

theorem opcode_zero_not_clr:
  assumes "length w = 32" "take 6 w = ''000000''" "w \<noteq> replicate 32 CHR ''0''"
  shows "disassemble_instruction w address
           = Inr ''; Error: Disassembly logic not implemented for opcode 000000 (clr)''
         \<and> disassemble_instruction (replicate 32 CHR ''0'') address = Inr ''clr''"
proof -
  have ones: "w \<noteq> replicate 32 CHR ''1''"
    using assms(2) unfolding replicate_32_ones by auto
  have sl: "slice 0 6 w = ''000000''" using assms(2) by (simp add: slice_def)
  have 1: "disassemble_instruction w address
           = Inr ''; Error: Disassembly logic not implemented for opcode 000000 (clr)''"
    unfolding disassemble_instruction_def Let_def sl
    using assms(1,3) ones by (simp add: clr_lookup decode_operands_def)
  have 2: "disassemble_instruction (replicate 32 CHR ''0'') address = Inr ''clr''"
    by code_simp
  show ?thesis using 1 2 by simp
qed

theorem opcode_zero_not_clr_witness:
  "disassemble_instruction ''00000000000000000000000000000001'' 0
           = Inr ''; Error: Disassembly logic not implemented for opcode 000000 (clr)''
         \<and> disassemble_instruction (replicate 32 CHR ''0'') 0 = Inr ''clr''"
proof -
  have "''00000000000000000000000000000001'' \<noteq> replicate 32 CHR ''0''"
    unfolding replicate_32_zeros by simp
  then show ?thesis
    using opcode_zero_not_clr[of "''00000000000000000000000000000001''" 0] by simp
qed

section \<open>Immediates and memory operands\<close>

lemma parse_immediate_value:
  assumes "py_int 10 (remove_commas s) = Some v"
  shows "parse_immediate s bits =
     (if v < 0
      then (if v < (if bits > 0 then - (2 ^ (bits - 1)) else 0)
            then Inl (InvalidImmediate (remove_commas s) (TooSmall v bits))
            else Inr (format_bin bits (v AND (push_bit bits 1 - 1))))
      else if v > (if bits > 0 then 2 ^ bits - 1 else 0)
      then Inl (InvalidImmediate (remove_commas s) (TooLarge v bits))
      else Inr (format_bin bits v))"
  using assms by (simp add: parse_immediate_def Let_def)

lemma remove_commas_py_str: "remove_commas (py_str v) = py_str v"
  by (rule remove_commas_id[OF py_str_no_comma])

section \<open>The limit on decimal literals\<close>

lemma pow2_14284_below: "(2::nat) ^ 14284 < 10 ^ 4300"
proof -
  have a: "(2::nat) ^ 485 < 10 ^ 146" by simp
  have b: "(2::nat) ^ 219 < 10 ^ 66" by simp
  have e1: "(14284::nat) = 485 * 29 + 219" by simp
  have e2: "(4300::nat) = 146 * 29 + 66" by simp
  have l: "((2::nat) ^ 485) ^ 29 < (10 ^ 146) ^ 29"
    by (rule power_strict_mono[OF a]) simp_all
  have p: "(0::nat) < (10 ^ 146) ^ 29"
    by (rule zero_less_power, rule zero_less_power) simp
  have "((2::nat) ^ 485) ^ 29 * 2 ^ 219 < (10 ^ 146) ^ 29 * 10 ^ 66"
    by (rule mult_strict_mono[OF l b p]) (rule le0)
  then show ?thesis
    by (simp only: e1 e2 power_add power_mult)
qed

lemma pow10_4300_below: "(10::nat) ^ 4300 < 2 ^ 14285"
proof -
  have a: "(10::nat) ^ 59 < 2 ^ 196" by simp
  have b: "(10::nat) ^ 52 < 2 ^ 173" by simp
  have e1: "(4300::nat) = 59 * 72 + 52" by simp
  have e2: "(14285::nat) = 196 * 72 + 173" by simp
  have l: "((10::nat) ^ 59) ^ 72 < (2 ^ 196) ^ 72"
    by (rule power_strict_mono[OF a]) simp_all
  have p: "(0::nat) < (2 ^ 196) ^ 72"
    by (rule zero_less_power, rule zero_less_power) simp
  have "((10::nat) ^ 59) ^ 72 * 10 ^ 52 < (2 ^ 196) ^ 72 * 2 ^ 173"
    by (rule mult_strict_mono[OF l b p]) (rule le0)
  then show ?thesis
    by (simp only: e1 e2 power_add power_mult)
qed

lemma py_digits_bound:
  assumes "py_digits b pu acc s = Some (v, rest)" "0 < b"
  shows "length rest \<le> length s
       \<and> v < (acc + 1) * b ^ count_digits (take (length s - length rest) s)"
  using assms
proof (induction s arbitrary: pu acc)
  case Nil
  then show ?case by (simp add: count_digits_def split: if_splits)
next
  case (Cons c cs)
  show ?case
  proof (cases "c = CHR ''_''")
    case True
    then have r: "py_digits b True acc cs = Some (v, rest)"
      using Cons.prems(1) by (simp split: if_splits)
    from Cons.IH[OF r Cons.prems(2)]
    have le: "length rest \<le> length cs"
      and v: "v < (acc + 1) * b ^ count_digits (take (length cs - length rest) cs)"
      by simp_all
    have "take (length (c # cs) - length rest) (c # cs) = c # take (length cs - length rest) cs"
      using le by (simp add: Suc_diff_le)
    then show ?thesis using le v True by (simp add: count_digits_def)
  next
    case nu: False
    show ?thesis
    proof (cases "digit_value c < b")
      case True
      then have r: "py_digits b False (acc * b + digit_value c) cs = Some (v, rest)"
        using Cons.prems(1) nu by simp
      from Cons.IH[OF r Cons.prems(2)]
      have le: "length rest \<le> length cs"
        and v: "v < (acc * b + digit_value c + 1) * b ^ count_digits (take (length cs - length rest) cs)"
        by simp_all
      have t: "take (length (c # cs) - length rest) (c # cs) = c # take (length cs - length rest) cs"
        using le by (simp add: Suc_diff_le)
      have "acc * b + digit_value c + 1 \<le> (acc + 1) * b" using True by (simp add: algebra_simps)
      then have "(acc * b + digit_value c + 1) * b ^ count_digits (take (length cs - length rest) cs)
               \<le> ((acc + 1) * b) * b ^ count_digits (take (length cs - length rest) cs)"
        by (rule mult_le_mono1)
      then have v': "v < ((acc + 1) * b) * b ^ count_digits (take (length cs - length rest) cs)"
        using v by linarith
      have cd: "count_digits (take (length (c # cs) - length rest) (c # cs))
                  = Suc (count_digits (take (length cs - length rest) cs))"
        unfolding t using nu by (simp add: count_digits_def)
      have "v < (acc + 1) * b ^ count_digits (take (length (c # cs) - length rest) (c # cs))"
        unfolding cd using v' by (simp add: algebra_simps)
      then show ?thesis using le by simp
    next
      case False
      then have "v = acc" "rest = c # cs"
        using Cons.prems(1) nu by (simp_all split: if_splits)
      then show ?thesis by (simp add: count_digits_def)
    qed
  qed
qed

lemma py_int_bounded:
  assumes "py_int 10 s = Some v"
  shows "\<bar>v\<bar> < 10 ^ max_str_digits"
proof -
  obtain neg s2 where sg: "split_sign (dropWhile int_isspace s) = (neg, s2)"
    by (cases "split_sign (dropWhile int_isspace s)") auto
  define s3 where "s3 = skip_base_prefix 10 s2"
  from assms obtain n rest where pd: "py_digits 10 False 0 s3 = Some (n, rest)"
    and lim: "\<not> over_limit (count_digits (take (length s3 - length rest) s3))"
    and v: "v = (if neg then - int n else int n)"
    unfolding py_int_def Let_def sg prod.case s3_def[symmetric]
    by (auto split: list.splits if_splits option.splits)
  from py_digits_bound[OF pd]
  have "n < 10 ^ count_digits (take (length s3 - length rest) s3)" by simp
  also have "\<dots> \<le> 10 ^ max_str_digits"
    using lim by (intro power_increasing) (simp_all add: over_limit_def)
  finally have "int n < 10 ^ max_str_digits"
    by (metis of_nat_less_iff of_nat_numeral of_nat_power)
  then show ?thesis using v by (simp split: if_splits)
qed

lemma width_within_limit:
  assumes "w \<le> 14284"
  shows "(2::int) ^ w < 10 ^ max_str_digits"
proof -
  have "(2::nat) ^ w \<le> 2 ^ 14284"
    by (rule power_increasing[OF assms]) simp
  then have "(2::nat) ^ w < 10 ^ 4300"
    using pow2_14284_below by (rule le_less_trans)
  then have "int (2 ^ w) < int (10 ^ 4300)"
    by (simp only: of_nat_less_iff)
  then show ?thesis
    by (simp only: of_nat_power of_nat_numeral max_str_digits_def)
qed

lemma width_over_limit: "10 ^ max_str_digits \<le> \<bar>(2::int) ^ 14285 - 1\<bar>"
proof -
  have "int (10 ^ 4300) < int (2 ^ 14285)"
    using pow10_4300_below by (simp only: of_nat_less_iff)
  then have "(10::int) ^ 4300 < 2 ^ 14285"
    by (simp only: of_nat_power of_nat_numeral)
  then have "(10::int) ^ 4300 \<le> 2 ^ 14285 - 1"
    by (simp only: zle_diff1_eq)
  moreover have "(0::int) \<le> 10 ^ 4300" by (rule zero_le_power) simp
  ultimately have "(10::int) ^ 4300 \<le> \<bar>2 ^ 14285 - 1\<bar>"
    by (simp only: abs_of_nonneg order_trans)
  then show ?thesis by (simp only: max_str_digits_def)
qed

lemma parse_immediate_py_str:
  assumes "\<bar>v\<bar> < 10 ^ max_str_digits"
  shows "parse_immediate (py_str v) bits =
     (if v < 0
      then (if v < (if bits > 0 then - (2 ^ (bits - 1)) else 0)
            then Inl (InvalidImmediate (py_str v) (TooSmall v bits))
            else Inr (format_bin bits (v AND (push_bit bits 1 - 1))))
      else if v > (if bits > 0 then 2 ^ bits - 1 else 0)
      then Inl (InvalidImmediate (py_str v) (TooLarge v bits))
      else Inr (format_bin bits v))"
  using parse_immediate_value[of "py_str v" v bits]
  by (simp only: remove_commas_py_str py_int_py_str[OF assms])

lemma parse_immediate_over_limit:
  assumes "10 ^ max_str_digits \<le> \<bar>v\<bar>"
  shows "parse_immediate (py_str v) bits = Inl (InvalidImmediate (py_str v) NotAnInteger)"
  unfolding parse_immediate_def Let_def remove_commas_py_str py_int_py_str_over_limit[OF assms]
  by (simp only: option.case)

text \<open>
  C3.  For a field of \<open>w\<close> bits with \<open>0 < w \<le> 14284\<close>, the immediate \<open>2 ^ w - 1\<close> is
  encoded (to a field of exactly \<open>w\<close> characters) and the immediate \<open>2 ^ w\<close> is
  refused as too large, both for the decimal text that \<open>str\<close> gives and for every
  other text that \<open>int\<close> reads as that value.  The bound on \<open>w\<close> is where the decimal
  text of \<open>2 ^ w - 1\<close> still has at most 4300 digits.
\<close>

theorem immediate_unsigned_bound:
  assumes "0 < w" "w \<le> 14284"
  shows "parse_immediate (py_str (2 ^ w - 1)) w = Inr (format_bin w (2 ^ w - 1))
       \<and> length (format_bin w (2 ^ w - 1)) = w
       \<and> parse_immediate (py_str (2 ^ w)) w
           = Inl (InvalidImmediate (py_str (2 ^ w)) (TooLarge (2 ^ w) w))
       \<and> (\<forall>s. py_int 10 (remove_commas s) = Some (2 ^ w - 1)
              \<longrightarrow> parse_immediate s w = Inr (format_bin w (2 ^ w - 1)))
       \<and> (\<forall>s. py_int 10 (remove_commas s) = Some (2 ^ w)
              \<longrightarrow> parse_immediate s w
                   = Inl (InvalidImmediate (remove_commas s) (TooLarge (2 ^ w) w)))"
proof -
  have p: "(0::int) \<le> 2 ^ w - 1" by simp
  have r: "\<not> (2::int) ^ w < 1" using p by linarith
  have q: "\<not> (2::int) ^ w < 0" by (simp add: not_less)
  note lim = width_within_limit[OF assms(2)]
  have lim1: "\<bar>(2::int) ^ w - 1\<bar> < 10 ^ max_str_digits" using lim p by linarith
  have lim2: "\<bar>(2::int) ^ w\<bar> < 10 ^ max_str_digits" using lim q by linarith
  have 1: "parse_immediate (py_str (2 ^ w - 1)) w = Inr (format_bin w (2 ^ w - 1))"
    using assms(1) r by (simp add: parse_immediate_py_str[OF lim1])
  have 2: "length (format_bin w (2 ^ w - 1)) = w"
    by (rule format_bin_length[OF p _ assms(1)]) simp
  have 3: "parse_immediate (py_str (2 ^ w)) w
           = Inl (InvalidImmediate (py_str (2 ^ w)) (TooLarge (2 ^ w) w))"
    using assms(1) q by (simp add: parse_immediate_py_str[OF lim2])
  have 4: "parse_immediate s w = Inr (format_bin w (2 ^ w - 1))"
    if "py_int 10 (remove_commas s) = Some (2 ^ w - 1)" for s
    using assms(1) r by (simp add: parse_immediate_value[OF that])
  have 5: "parse_immediate s w = Inl (InvalidImmediate (remove_commas s) (TooLarge (2 ^ w) w))"
    if "py_int 10 (remove_commas s) = Some (2 ^ w)" for s
    using assms(1) q by (simp add: parse_immediate_value[OF that])
  show ?thesis using 1 2 3 4 5 by blast
qed

theorem immediate_unsigned_bound_witness:
  "parse_immediate ''15'' 4 = Inr ''1111''
   \<and> parse_immediate ''16'' 4 = Inl (InvalidImmediate ''16'' (TooLarge 16 4))
   \<and> parse_immediate '' +1_5,'' 4 = Inr ''1111''"
proof -
  have a: "py_str 15 = ''15''" "py_str 16 = ''16''" "format_bin 4 15 = ''1111''"
    "py_int 10 (remove_commas '' +1_5,'') = Some 15"
    by code_simp+
  show ?thesis using immediate_unsigned_bound[of 4] by (simp add: a)
qed

text \<open>
  For a field of 14285 bits the claim of C3 fails as it is stated: the decimal text of
  \<open>2 ^ 14285 - 1\<close> has 4301 digits, \<open>int\<close> raises on it, and \<open>parse_immediate\<close>
  fails on the maximum value itself.
\<close>

theorem immediate_maximum_refused:
  "parse_immediate (py_str (2 ^ 14285 - 1)) 14285
     = Inl (InvalidImmediate (py_str (2 ^ 14285 - 1)) NotAnInteger)"
  by (rule parse_immediate_over_limit[OF width_over_limit])

text \<open>
  C4.  The claim that every text of another shape is refused fails: both patterns of
  \<open>parse_memory_address\<close> are matched at the start of the text only, so text after the
  closing parenthesis is accepted and ignored, also inside an instruction.
\<close>

theorem memory_operand_trailing_text:
  "parse_memory_address ''0(%r1)xyz'' = Inr (0, ''%r1'')
   \<and> parse_memory_address ''(%r1)(%r2)'' = Inr (0, ''%r1'')
   \<and> assemble_line ''ldwd 0(%r1)xyz, %r2'' label_table current_address
        = assemble_line ''ldwd 0(%r1), %r2'' label_table current_address
   \<and> assemble_line ''ldwd 0(%r1), %r2'' label_table current_address
        = Inr (Some ''00011000001000100000000000000000'')"
  by code_simp

section \<open>Pass 1\<close>

lemma label_match_Nil: "label_match [] = None"
  by (simp add: label_match_def)

lemma pass1_step:
  "pass1 n (l # ls) tbl cl a =
     (case label_of l of
        Some L \<Rightarrow> if L \<in> dom tbl then Inl (DuplicateLabel L n)
                  else pass1 (Suc n) ls (tbl(L \<mapsto> a)) cl a
      | None \<Rightarrow> if is_instruction l
                then pass1 (Suc n) ls tbl
                       (cl @ [\<lparr>line = clean_line l, addr = a, orig_line = n\<rparr>]) (Suc a)
                else pass1 (Suc n) ls tbl cl a)"
proof (cases "clean_line l = []")
  case True
  then show ?thesis
    by (simp add: pass1.simps(2) label_of_def is_instruction_def label_match_Nil clean_line_def[symmetric])
next
  case False
  then show ?thesis
    by (simp add: pass1.simps(2) label_of_def is_instruction_def clean_line_def[symmetric] Let_def
             split: option.split)
qed

declare pass1.simps(2) [simp del]

lemma labels_append: "labels (xs @ ys) = labels xs @ labels ys"
  by (induction xs) (simp_all split: option.split)



lemma pass1_duplicate:
  assumes "(\<exists>L \<in> set (labels ls). L \<in> dom tbl) \<or> \<not> distinct (labels ls)"
  shows "\<exists>L k. pass1 n ls tbl cl a = Inl (DuplicateLabel L k)"
  using assms
proof (induction ls arbitrary: n tbl cl a)
  case Nil
  then show ?case by simp
next
  case (Cons l ls)
  show ?case
  proof (cases "label_of l")
    case None
    then have "(\<exists>L \<in> set (labels ls). L \<in> dom tbl) \<or> \<not> distinct (labels ls)"
      using Cons.prems by simp
    from Cons.IH[OF this] show ?thesis
      by (simp add: pass1_step None del: fun_upd_apply)
  next
    case (Some L)
    show ?thesis
    proof (cases "L \<in> dom tbl")
      case True
      then show ?thesis by (simp add: pass1_step Some)
    next
      case False
      have "(\<exists>L' \<in> set (labels ls). L' \<in> dom (tbl(L \<mapsto> a))) \<or> \<not> distinct (labels ls)"
        using Cons.prems False Some by auto
      from Cons.IH[OF this, of "Suc n" cl a]
      obtain L' k where "pass1 (Suc n) ls (tbl(L \<mapsto> a)) cl a = Inl (DuplicateLabel L' k)"
        by blast
      moreover have "pass1 n (l # ls) tbl cl a = pass1 (Suc n) ls (tbl(L \<mapsto> a)) cl a"
        using False by (simp add: pass1_step Some)
      ultimately show ?thesis by simp
    qed
  qed
qed

text \<open>
  C5.  A program with two label-definition lines for the same identifier ends Pass 1 with
  the duplicate-label error (for the first identifier that is bound twice), and the output
  file is left as it was before the run.
\<close>

theorem duplicate_label_aborts:
  assumes "label_of l1 = Some L" "label_of l2 = Some L"
  shows "\<exists>L' n. run_assembler (pre @ l1 # mid @ l2 # post) output_before
                  = (Some (DuplicateLabel L' n), output_before)"
proof -
  have "\<not> distinct (labels (pre @ l1 # mid @ l2 # post))"
    using assms by (simp add: labels_append)
  then obtain L' n where "pass1 1 (pre @ l1 # mid @ l2 # post) Map.empty [] 0
      = Inl (DuplicateLabel L' n)"
    using pass1_duplicate by blast
  then show ?thesis by (simp add: run_assembler_def)
qed

theorem duplicate_label_aborts_witness:
  "label_of ''loop:  # first'' = Some ''loop'' \<and> label_of '' loop:'' = Some ''loop''
   \<and> (\<exists>L' n. run_assembler ([''clr''] @ ''loop:  # first'' # [''pint %r1''] @ '' loop:'' # [''end''])
                  (Some [''old'']) = (Some (DuplicateLabel L' n), Some [''old'']))
   \<and> run_assembler [''clr'', ''loop:  # first'', ''pint %r1'', '' loop:'', ''end''] (Some [''old''])
        = (Some (DuplicateLabel ''loop'' 4), Some [''old''])"
proof -
  have a: "label_of ''loop:  # first'' = Some ''loop''" "label_of '' loop:'' = Some ''loop''"
    by code_simp+
  have b: "run_assembler [''clr'', ''loop:  # first'', ''pint %r1'', '' loop:'', ''end''] (Some [''old''])
        = (Some (DuplicateLabel ''loop'' 4), Some [''old''])"
    by code_simp
  show ?thesis
    using duplicate_label_aborts[OF a, of "[''clr'']" "[''pint %r1'']" "[''end'']" "Some [''old'']"] a b
    by blast
qed

section \<open>Label resolution\<close>


















section \<open>The disassembly pass\<close>

lemma disassembly_pass_step:
  "disassembly_pass a (l # ls) acc =
     (if py_strip l = [] then disassembly_pass (Suc a) ls acc
      else if length (py_strip l) \<noteq> 32 then
        disassembly_pass (Suc a) ls
          (acc @ [''; Error: Invalid length at address '' @ py_str (int a)])
      else (case disassemble_instruction (py_strip l) a of
              Inl e \<Rightarrow> Inl e
            | Inr t \<Rightarrow> disassembly_pass (Suc a) ls (acc @ [t])))"
  by (simp add: Let_def)

declare disassembly_pass.simps(2) [simp del]

lemma disassembly_pass_acc:
  "disassembly_pass a ls acc =
     (case disassembly_pass a ls [] of Inl e \<Rightarrow> Inl e | Inr ws \<Rightarrow> Inr (acc @ ws))"
proof (induction ls arbitrary: a acc)
  case Nil
  then show ?case by simp
next
  case (Cons l ls)
  note IH = Cons.IH
  show ?case
  proof (cases "py_strip l = []")
    case True
    then show ?thesis using IH[of "Suc a" acc] by (simp add: disassembly_pass_step)
  next
    case ne: False
    show ?thesis
    proof (cases "length (py_strip l) \<noteq> 32")
      case True
      let ?m = "''; Error: Invalid length at address '' @ py_str (int a)"
      show ?thesis
        using ne True IH[of "Suc a" "acc @ [?m]"] IH[of "Suc a" "[?m]"]
        by (simp add: disassembly_pass_step split: sum.splits)
    next
      case False
      show ?thesis
      proof (cases "disassemble_instruction (py_strip l) a")
        case (Inl e)
        then show ?thesis using ne False by (simp add: disassembly_pass_step)
      next
        case (Inr t)
        then show ?thesis
          using ne False IH[of "Suc a" "acc @ [t]"] IH[of "Suc a" "[t]"]
          by (simp add: disassembly_pass_step split: sum.splits)
      qed
    qed
  qed
qed

lemma disassembly_pass_append:
  "disassembly_pass a (xs @ ys) acc =
     (case disassembly_pass a xs acc of
        Inl e \<Rightarrow> Inl e
      | Inr acc' \<Rightarrow> disassembly_pass (a + length xs) ys acc')"
proof (induction xs arbitrary: a acc)
  case Nil
  then show ?case by simp
next
  case (Cons l xs)
  show ?case
    using Cons.IH[of "Suc a"]
    by (simp add: disassembly_pass_step split: sum.splits)
qed













lemma disassembly_pass_three_mid:
  assumes "disassembly_pass 0 pre [] = Inr out_pre"
    "disassembly_pass (length pre) [l] [] = Inl e"
  shows "disassembly_pass 0 (pre @ l # post) [] = Inl e"
proof -
  have a: "disassembly_pass (length pre) [l] out_pre = Inl e"
    by (subst disassembly_pass_acc) (simp add: assms(2))
  have "disassembly_pass 0 (pre @ [l] @ post) [] = disassembly_pass (length pre) ([l] @ post) out_pre"
    by (subst disassembly_pass_append) (simp add: assms(1))
  also have "\<dots> = Inl e"
    by (subst disassembly_pass_append) (simp add: a)
  finally show ?thesis by simp
qed



section \<open>Splitting the canonical text\<close>

lemma no_space_dropWhile: "\<forall>c \<in> set s. \<not> py_isspace c \<Longrightarrow> dropWhile py_isspace s = s"
  by (cases s) simp_all

lemma py_strip_plain: "plain s \<Longrightarrow> py_strip s = s"
  by (simp add: plain_def py_strip_def no_space_dropWhile)

lemma space_is_space: "py_isspace CHR '' ''"
  by (simp add: py_isspace_def)

lemma py_strip_space_plain: "plain s \<Longrightarrow> py_strip (CHR '' '' # s) = s"
  by (simp add: plain_def py_strip_def no_space_dropWhile space_is_space)

lemma py_split_on_plain:
  assumes "\<forall>c \<in> set a. c \<noteq> CHR '',''"
  shows "py_split_on CHR '','' a = [a]"
    and "py_split_on CHR '','' (a @ CHR '','' # b) = a # py_split_on CHR '','' b"
  using assms by (induction a) auto

lemma operands_one:
  assumes "plain a"
  shows "map py_strip (py_split_on CHR '','' a) = [a]"
  using assms py_split_on_plain(1)[of a] by (simp add: py_strip_plain plain_def)

lemma operands_two:
  assumes "plain a" "plain b"
  shows "map py_strip (py_split_on CHR '','' (a @ '', '' @ b)) = [a, b]"
proof -
  have "py_split_on CHR '','' (a @ CHR '','' # (CHR '' '' # b)) = [a, CHR '' '' # b]"
    using assms py_split_on_plain(2)[of a "CHR '' '' # b"] py_split_on_plain(1)[of "CHR '' '' # b"]
    by (simp add: plain_def)
  then show ?thesis using assms by (simp add: py_strip_plain py_strip_space_plain)
qed

lemma operands_three:
  assumes "plain a" "plain b" "plain c"
  shows "map py_strip (py_split_on CHR '','' (a @ '', '' @ b @ '', '' @ c)) = [a, b, c]"
proof -
  have "py_split_on CHR '','' (a @ CHR '','' # ((CHR '' '' # b) @ CHR '','' # (CHR '' '' # c)))
          = [a, CHR '' '' # b, CHR '' '' # c]"
    using assms py_split_on_plain(2)[of a "(CHR '' '' # b) @ CHR '','' # (CHR '' '' # c)"]
      py_split_on_plain(2)[of "CHR '' '' # b" "CHR '' '' # c"]
      py_split_on_plain(1)[of "CHR '' '' # c"]
    by (simp add: plain_def)
  then show ?thesis using assms by (simp add: py_strip_plain py_strip_space_plain)
qed

lemma py_split_max1_word:
  assumes "m \<noteq> []" "\<forall>c \<in> set m. \<not> py_isspace c" "rest \<noteq> []" "\<not> py_isspace (hd rest)"
  shows "py_split_max1 (m @ CHR '' '' # rest) = [m, rest]"
proof -
  have d: "dropWhile py_isspace (m @ CHR '' '' # rest) = m @ CHR '' '' # rest"
    using assms(1,2) by (cases m) simp_all
  have t: "takeWhile (\<lambda>c. \<not> py_isspace c) (m @ CHR '' '' # rest) = m"
    using assms(2) by (simp add: takeWhile_append2 space_is_space)
  have r: "dropWhile (\<lambda>c. \<not> py_isspace c) (m @ CHR '' '' # rest) = CHR '' '' # rest"
    using assms(2) by (simp add: dropWhile_append2 space_is_space)
  have r2: "dropWhile py_isspace (CHR '' '' # rest) = rest"
    using assms(3,4) by (cases rest) (simp_all add: space_is_space)
  show ?thesis
    unfolding py_split_max1_def Let_def d t r r2 using assms(1,3) by simp
qed

end
